theory Spec2Isabelle
  imports Main "HOL-Library.Sublist" "HOL-Library.AList"
begin

section \<open>Diagnostics and exceptions\<close>

text \<open>
  A JavaScript string is a sequence of code units; \<open>length\<close>, \<open>substring\<close> and \<open>===\<close> work
  on that sequence, unit by unit. The model writes it as a \<open>string\<close> (a list of characters,
  one per code unit); nothing below looks inside a character.
\<close>

text \<open>Modelled from the spec: \<open>IValidation.IError\<close>, whose declaration (\<open>src/IValidation.ts\<close>)
  is not among the sources: the shared diagnostics record \<open>{path, expected, value}\<close> of
  section 4.4. \<open>validate.predicate\<close> reads \<open>path\<close>, a string; the runtime value is left as a
  type parameter.\<close>

record 'v IError =
  path :: string
  expected :: string
  "value" :: 'v

text \<open>Modelled from the spec: \<open>TypeGuardError.IProps\<close>, whose declaration
  (\<open>src/TypeGuardError.ts\<close>) is not among the sources: the diagnostics record together with
  the \<open>method\<close> that \<open>assertType.predicate\<close> and \<open>stringify.throws\<close> pass;
  \<open>Omit<IProps, "method">\<close> is the diagnostics record alone.\<close>

record 'v IProps = "'v IError" +
  "method" :: string

text \<open>Modelled from the spec: \<open>IValidation\<close> (\<open>src/IValidation.ts\<close>, not among the sources):
  \<open>{success, errors}\<close> of section 6, as \<open>validate.predicate\<close> reads and writes it.\<close>

record 'v IValidation =
  success :: bool
  errors :: "'v IError list"

text \<open>The object a closure of \<open>assertType.predicate\<close> returns. Its declared type is
  \<open>Omit<TypeGuardError.IProps, "method">\<close>, the diagnostics record; an object type of
  TypeScript is open, so the object may have a \<open>method\<close> key of its own (\<open>method_key\<close>), which
  a spread copies like the other keys.\<close>

record 'v Omit_IProps = "'v IError" +
  method_key :: "string option"

text \<open>What leaves a call as an exception: \<open>new TypeGuardError(props)\<close>, \<open>new Error(message)\<close>,
  or whatever else a closure threw (\<open>Thrown\<close>, the thrown value as a type parameter).\<close>

datatype ('x, 'v) exn = TypeGuardError "'v IProps" | Error string | Thrown 'x

text \<open>\<open>String.prototype.substring(start, finish)\<close> on non-negative integer arguments: both are
  clamped to the length, and swapped when \<open>start\<close> is the larger.\<close>

definition substring :: "string \<Rightarrow> nat \<Rightarrow> nat \<Rightarrow> string" where
  "substring s start finish =
     (let len = length s;
          a = min start len;
          b = min finish len
      in take (max a b - min a b) (drop (min a b) s))"

section \<open>The public stubs\<close>

text \<open>\<open>halt\<close> (module.ts, 338-342) throws; its return type is \<open>never\<close>.\<close>

definition halt :: "string \<Rightarrow> ('x, 'v) exn + 'a" where
  "halt name =
     Inl (Error (''Error on TSON.'' @ name @ ''(): no transform has been configured. Configure the \"tsconfig.json\" file following the [README.md#setup](https://github.com/samchon/typescript-json#setup)''))"

text \<open>The implementation signatures of the six entry points declare no parameter and
  only call \<open>halt\<close>; whatever arguments the caller passes (\<open>args\<close>) are ignored. They are the
  functions a call reaches when no transformer has replaced it.\<close>

definition TSON_assertType :: "'arg list \<Rightarrow> ('x, 'v) exn + 'a" where
  "TSON_assertType args = halt ''assertType''"

definition TSON_is :: "'arg list \<Rightarrow> ('x, 'v) exn + 'a" where
  "TSON_is args = halt ''is''"

definition TSON_validate :: "'arg list \<Rightarrow> ('x, 'v) exn + 'a" where
  "TSON_validate args = halt ''validate''"

definition TSON_stringify :: "'arg list \<Rightarrow> ('x, 'v) exn + 'a" where
  "TSON_stringify args = halt ''stringify''"

definition TSON_create :: "'arg list \<Rightarrow> ('x, 'v) exn + 'a" where
  "TSON_create args = halt ''create''"

definition TSON_application :: "'arg list \<Rightarrow> ('x, 'v) exn + 'a" where
  "TSON_application args = halt ''application''"

section \<open>The predicates of the generated validators\<close>

text \<open>\<open>assertType.predicate\<close> (module.ts, 61-72). The closure is a thunk that returns its
  object or throws. On the failing branch the object literal
  \<open>{method: "TSON.assertType", ...closure()}\<close> is built first: a throw of the closure leaves
  the call as it is, and the spread, which comes after \<open>method\<close>, overwrites \<open>method\<close> when
  the closure's object has that key.\<close>

definition assertType_predicate ::
  "bool \<Rightarrow> bool \<Rightarrow> (unit \<Rightarrow> ('x, 'v) exn + 'v Omit_IProps) \<Rightarrow> ('x, 'v) exn + bool" where
  "assertType_predicate matched exceptionable closure =
     (if matched = False \<and> exceptionable = True
      then
        (case closure () of
           Inl thrown \<Rightarrow> Inl thrown
         | Inr props \<Rightarrow>
             Inl (TypeGuardError
               \<lparr>path = path props, expected = expected props, value = value props,
                method = (case method_key props of
                            None \<Rightarrow> ''TSON.assertType''
                          | Some own \<Rightarrow> own)\<rparr>))
      else Inr matched)"

text \<open>A check site of a generated validator: the arguments of one call of a predicate,
  whose closure returns a \<open>'r\<close> or throws.\<close>

type_synonym ('x, 'v, 'r) check = "bool \<times> bool \<times> (unit \<Rightarrow> ('x, 'v) exn + 'r)"

text \<open>Calls of \<open>assertType.predicate\<close> one after the other: a throw leaves the sequence, so
  the later calls are not made; otherwise the returned booleans are collected.\<close>

fun assertType_calls ::
  "('x, 'v, 'v Omit_IProps) check list \<Rightarrow> ('x, 'v) exn + bool list" where
  "assertType_calls [] = Inr []"
| "assertType_calls ((matched, exceptionable, closure) # cs) =
     (case assertType_predicate matched exceptionable closure of
        Inl e \<Rightarrow> Inl e
      | Inr b \<Rightarrow> (case assertType_calls cs of Inl e \<Rightarrow> Inl e | Inr bs \<Rightarrow> Inr (b # bs)))"

text \<open>\<open>validate.predicate\<close> (module.ts, 152-178). \<open>res\<close> is mutated in place; the model
  returns how the call ends (the returned boolean, or the exception that leaves it)
  together with the accumulator after the call.
  \<open>res.success &&= false\<close> assigns \<open>false\<close> when \<open>res.success\<close> is true and nothing otherwise;
  it comes before \<open>closure()\<close>, so a throw of the closure leaves the call with \<open>success\<close>
  already written and \<open>errors\<close> as it was.
  \<open>last'\<close> is the source's \<open>last\<close>, the path of \<open>res.errors[res.errors.length - 1]\<close>, read
  only when the array is not empty.\<close>

definition validate_predicate ::
  "'v IValidation \<Rightarrow> bool \<Rightarrow> bool \<Rightarrow> (unit \<Rightarrow> ('x, 'v) exn + 'v IError)
     \<Rightarrow> (('x, 'v) exn + bool) \<times> 'v IValidation" where
  "validate_predicate res matched exceptionable closure =
     (if matched = False \<and> exceptionable = True
      then
        (let res1 = res\<lparr>success := (if success res then False else success res)\<rparr>
         in case closure () of
              Inl thrown \<Rightarrow> (Inl thrown, res1)
            | Inr error \<Rightarrow>
                if length (errors res1) \<noteq> 0 \<and>
                   (let last' = path (errors res1 ! (length (errors res1) - 1))
                    in length last' \<ge> length (path error) \<and>
                       substring last' 0 (length (path error)) = path error)
                then (Inr matched, res1)
                else (Inr matched, res1\<lparr>errors := errors res1 @ [error]\<rparr>))
      else (Inr matched, res))"

text \<open>Calls of \<open>validate.predicate\<close> on one accumulator, one after the other; a throw leaves
  the sequence, so the later calls are not made. The result is the accumulator after the
  last call made.\<close>

fun validate_calls ::
  "'v IValidation \<Rightarrow> ('x, 'v, 'v IError) check list \<Rightarrow> 'v IValidation" where
  "validate_calls res [] = res"
| "validate_calls res ((matched, exceptionable, closure) # cs) =
     (case validate_predicate res matched exceptionable closure of
        (Inl thrown, res1) \<Rightarrow> res1
      | (Inr b, res1) \<Rightarrow> validate_calls res1 cs)"

text \<open>A check site is fatal when \<open>matched\<close> is false and \<open>exceptionable\<close> is true.\<close>

fun fatal :: "('x, 'v, 'r) check \<Rightarrow> bool" where
  "fatal (matched, exceptionable, closure) = (\<not> matched \<and> exceptionable)"

text \<open>Two diagnostics of a nested value: \<open>input.a.b\<close> is a string where an object is
  expected, so \<open>input.a.b.c\<close> is undefined where a string is expected. The runtime values
  and the thrown values are written as their source text.\<close>

definition error_a_b :: "string IError" where
  "error_a_b = \<lparr>path = ''$input.a.b'', expected = ''Resolved<B>'', value = ''\"text\"''\<rparr>"

definition error_a_b_c :: "string IError" where
  "error_a_b_c = \<lparr>path = ''$input.a.b.c'', expected = ''string'', value = ''undefined''\<rparr>"

text \<open>Closures of \<open>validate.predicate\<close> that return these diagnostics.\<close>

definition closure_a_b :: "unit \<Rightarrow> (string, string) exn + string IError" where
  "closure_a_b u = Inr error_a_b"

definition closure_a_b_c :: "unit \<Rightarrow> (string, string) exn + string IError" where
  "closure_a_b_c u = Inr error_a_b_c"

text \<open>Closures of \<open>assertType.predicate\<close> that return them, without a \<open>method\<close> key and with
  one.\<close>

definition props_a_b :: "unit \<Rightarrow> (string, string) exn + string Omit_IProps" where
  "props_a_b u =
     Inr \<lparr>path = ''$input.a.b'', expected = ''Resolved<B>'', value = ''\"text\"'',
          method_key = None\<rparr>"

definition props_a_b_c :: "unit \<Rightarrow> (string, string) exn + string Omit_IProps" where
  "props_a_b_c u =
     Inr \<lparr>path = ''$input.a.b.c'', expected = ''string'', value = ''undefined'',
          method_key = None\<rparr>"

definition props_own_method :: "unit \<Rightarrow> (string, string) exn + string Omit_IProps" where
  "props_own_method u =
     Inr \<lparr>path = ''$input.a.b'', expected = ''Resolved<B>'', value = ''\"text\"'',
          method_key = Some ''custom''\<rparr>"

text \<open>A closure that throws, \<open>() => { throw "closure failed"; }\<close>.\<close>

definition throwing :: "unit \<Rightarrow> (string, string) exn + 'r" where
  "throwing u = Inl (Thrown ''closure failed'')"

section \<open>JSON values and the expected schema applications of the tests\<close>

text \<open>A JSON value as the tests write it: an object literal keeps its keys in the order of
  the source.\<close>

datatype json =
    JNull
  | JBool bool
  | JNumber int
  | JString string
  | JArray "json list"
  | JObject "(string \<times> json) list"

text \<open>Reading a value inside a JSON value: \<open>x.key\<close> and \<open>x[i]\<close>, one after the other; \<open>None\<close>
  where JavaScript would read \<open>undefined\<close>.\<close>

datatype selector = Key string | Index nat

fun json_at :: "selector list \<Rightarrow> json \<Rightarrow> json option" where
  "json_at [] j = Some j"
| "json_at (Key k # ks) (JObject kvs) =
     (case map_of kvs k of None \<Rightarrow> None | Some v \<Rightarrow> json_at ks v)"
| "json_at (Index i # ks) (JArray vs) = (if i < length vs then json_at ks (vs ! i) else None)"
| "json_at (s # ks) j = None"

text \<open>The keys of an object, in order (\<open>Object.keys\<close>).\<close>

fun keys :: "json \<Rightarrow> string list" where
  "keys (JObject kvs) = map fst kvs"
| "keys j = []"

text \<open>The third argument of \<open>_test_application\<close> in
  \<open>test/features/application/test_application_object_alias.ts\<close>, lines 8-66.\<close>

definition expected_object_alias :: json where
  "expected_object_alias =
     JObject [
       (''schemas'', JArray [
          JObject [
            (''type'', JString ''array''),
            (''items'', JObject [(''$ref'', JString ''#/components/schemas/ObjectAlias.IMember'')]),
            (''nullable'', JBool False)]]),
       (''components'', JObject [
          (''schemas'', JObject [
             (''ObjectAlias.IMember'', JObject [
                (''type'', JString ''object''),
                (''properties'', JObject [
                   (''id'', JObject [(''type'', JString ''string''), (''nullable'', JBool True)]),
                   (''email'', JObject [(''type'', JString ''string''), (''nullable'', JBool False)]),
                   (''name'', JObject [(''type'', JString ''string''), (''nullable'', JBool False)]),
                   (''sex'', JObject [
                      (''oneOf'', JArray [
                         JObject [
                           (''type'', JString ''number''),
                           (''enum'', JArray [JNumber 2, JNumber 1]),
                           (''nullable'', JBool True)],
                         JObject [
                           (''type'', JString ''string''),
                           (''enum'', JArray [JString ''male'', JString ''female'']),
                           (''nullable'', JBool True)]])]),
                   (''age'', JObject [(''type'', JString ''number''), (''nullable'', JBool True)]),
                   (''dead'', JObject [(''type'', JString ''boolean''), (''nullable'', JBool True)])]),
                (''nullable'', JBool False),
                (''required'', JArray [JString ''id'', JString ''email'', JString ''name'',
                                       JString ''sex'', JString ''age'', JString ''dead'']),
                (''jsDocTags'', JArray [])])])]),
       (''purpose'', JString ''swagger''),
       (''prefix'', JString ''#/components/schemas'')]"

text \<open>\<open>test/features/application/test_application_object_primitive.ts\<close>, lines 8-96.\<close>

definition expected_object_primitive :: json where
  "expected_object_primitive =
     JObject [
       (''schemas'', JArray [JObject [(''$ref'', JString ''#/components/schemas/__type'')]]),
       (''components'', JObject [
          (''schemas'', JObject [
             (''__type'', JObject [
                (''type'', JString ''object''),
                (''properties'', JObject [
                   (''id'', JObject [(''type'', JString ''string''), (''nullable'', JBool False)]),
                   (''extension'', JObject [
                      (''type'', JString ''string''),
                      (''enum'', JArray [JString ''txt'', JString ''md'', JString ''html'']),
                      (''nullable'', JBool False)]),
                   (''title'', JObject [(''type'', JString ''string''), (''nullable'', JBool False)]),
                   (''body'', JObject [(''type'', JString ''string''), (''nullable'', JBool False)]),
                   (''files'', JObject [
                      (''type'', JString ''array''),
                      (''items'', JObject [(''$ref'', JString ''#/components/schemas/__type.o1'')]),
                      (''nullable'', JBool False)]),
                   (''secret'', JObject [(''type'', JString ''boolean''), (''nullable'', JBool False)]),
                   (''created_at'', JObject [(''type'', JString ''string''), (''nullable'', JBool False)])]),
                (''nullable'', JBool False),
                (''required'', JArray [JString ''id'', JString ''extension'', JString ''title'',
                                       JString ''body'', JString ''files'', JString ''secret'',
                                       JString ''created_at'']),
                (''jsDocTags'', JArray [])]),
             (''__type.o1'', JObject [
                (''type'', JString ''object''),
                (''properties'', JObject [
                   (''id'', JObject [(''type'', JString ''string''), (''nullable'', JBool False)]),
                   (''name'', JObject [(''type'', JString ''string''), (''nullable'', JBool False)]),
                   (''extension'', JObject [(''type'', JString ''string''), (''nullable'', JBool False)]),
                   (''url'', JObject [(''type'', JString ''string''), (''nullable'', JBool False)]),
                   (''created_at'', JObject [(''type'', JString ''string''), (''nullable'', JBool False)])]),
                (''nullable'', JBool False),
                (''required'', JArray [JString ''id'', JString ''name'', JString ''extension'',
                                       JString ''url'', JString ''created_at'']),
                (''jsDocTags'', JArray [])])])]),
       (''purpose'', JString ''swagger''),
       (''prefix'', JString ''#/components/schemas'')]"

text \<open>\<open>test/features/application/test_application_object_intersection.ts\<close>, lines 8-40.\<close>

definition expected_object_intersection :: json where
  "expected_object_intersection =
     JObject [
       (''schemas'', JArray [JObject [(''$ref'', JString ''#/components/schemas/ObjectIntersection'')]]),
       (''components'', JObject [
          (''schemas'', JObject [
             (''ObjectIntersection'', JObject [
                (''type'', JString ''object''),
                (''properties'', JObject [
                   (''email'', JObject [(''type'', JString ''string''), (''nullable'', JBool False)]),
                   (''name'', JObject [(''type'', JString ''string''), (''nullable'', JBool False)]),
                   (''vulnerable'', JObject [(''type'', JString ''boolean''), (''nullable'', JBool False)])]),
                (''nullable'', JBool False),
                (''required'', JArray [JString ''email'', JString ''name'', JString ''vulnerable'']),
                (''jsDocTags'', JArray [])])])]),
       (''purpose'', JString ''swagger''),
       (''prefix'', JString ''#/components/schemas'')]"

text \<open>\<open>test_application_object_closure\<close>, in the same file, lines 49-74.\<close>

definition expected_object_closure :: json where
  "expected_object_closure =
     JObject [
       (''schemas'', JArray [JObject [(''$ref'', JString ''#/components/schemas/ObjectClosure.IRecord'')]]),
       (''components'', JObject [
          (''schemas'', JObject [
             (''ObjectClosure.IRecord'', JObject [
                (''type'', JString ''object''),
                (''properties'', JObject [
                   (''id'', JObject [(''type'', JString ''string''), (''nullable'', JBool False)]),
                   (''open'', JObject [])]),
                (''nullable'', JBool False),
                (''required'', JArray [JString ''id'', JString ''open'']),
                (''jsDocTags'', JArray [])])])]),
       (''purpose'', JString ''swagger''),
       (''prefix'', JString ''#/components/schemas'')]"

section \<open>The schema compiler, from the specification\<close>

text \<open>
  \<open>TSON.application\<close> is a stub in \<open>src/module.ts\<close>; the transformer that replaces the call
  with a schema application is not among the sources, nor are the types under
  \<open>test/structures\<close> that the tests compile. What follows is written from the specification
  (sections 3, 4.1 and 6) and is checked against the expected applications above.
\<close>

text \<open>Modelled from the spec: the kinds of a primitive node of the Type IR (section 3),
  which the front-end, not among the sources, produces.\<close>

datatype atomic = AString | ANumber | ABoolean | ABigint | ANull | AUndefined | AUnknown

text \<open>Modelled from the spec: the fixed-format tags of a primitive node (section 3).\<close>

datatype format_tag = Uuid | Email | Url | Ipv4 | Ipv6

text \<open>Modelled from the spec: the origin tag of an object node (section 3), a user-named
  type or an anonymous literal shape.\<close>

datatype origin = UserNamed | AnonymousLiteral

text \<open>Modelled from the spec: the Type IR of section 3, which the front-end (not among the
  sources) produces. A primitive carries its kind, an optional format tag and an optional
  set of literals, listed in the order of the front-end; an object its optional name, its
  optional origin tag, its properties in declaration order and the documentation tags of
  its declaration; a union its alternatives, which are nodes. Nullability is a modifier on
  the edge into a node; a property carries its name, its edge and its required flag. The
  specification gives an intersection its members only; the declared name it is registered
  under is the one the expected application of the intersection test shows.\<close>

datatype type_ir =
    TPrimitive atomic "format_tag option" "json list option"
  | TArray edge
  | TTuple "edge list"
  | TObject "string option" "origin option" "property list" "json list"
  | TUnion "type_ir list"
  | TIntersection "string option" "type_ir list"
  | TReference string
and edge = Edge bool type_ir
and property = Property string edge bool

text \<open>The two dialects: the \<open>Purpose\<close> type parameter of \<open>application\<close> (module.ts, 322).\<close>

datatype purpose = Swagger | Ajv

text \<open>The string of a dialect, as the \<open>purpose\<close> field of the expected applications has it.\<close>

definition purpose_name :: "purpose \<Rightarrow> string" where
  "purpose_name p = (case p of Swagger \<Rightarrow> ''swagger'' | Ajv \<Rightarrow> ''ajv'')"

text \<open>The default of the \<open>Prefix\<close> type parameter of \<open>application\<close> (module.ts, 323-325).\<close>

definition default_prefix :: "purpose \<Rightarrow> string" where
  "default_prefix p =
     (case p of Swagger \<Rightarrow> ''#/components/schemas'' | Ajv \<Rightarrow> ''components#/schemas'')"

text \<open>Modelled from the spec: the compile-time modelling errors of sections 3, 4.1 and 7
  (a property name that two members of an intersection share; a member of an intersection
  that is not an object shape).\<close>

datatype compile_error = PropertyCollision string | NonObjectIntersection

text \<open>Modelled from the spec: the state of one compile (section 3, components registry): the
  registry from generated names to fragments, in the order the names were taken, and the
  counter of each container for its anonymous shapes.\<close>

record compiler_state =
  registry :: "(string \<times> json) list"
  counters :: "(string \<times> nat) list"

text \<open>Modelled from the spec: the result of a step of the compile, a modelling error or a
  value with the state after it.\<close>

type_synonym 'a compiled = "compile_error + ('a \<times> compiler_state)"

text \<open>Modelled from the spec: the \<open><N>\<close> of a generated name \<open>c.o<N>\<close> (section 3), the
  decimal digits of the counter.\<close>

fun decimal :: "nat \<Rightarrow> string" where
  "decimal n =
     (if n < 10 then [''0123456789'' ! n]
      else decimal (n div 10) @ [''0123456789'' ! (n mod 10)])"

declare decimal.simps [simp del]

text \<open>Modelled from the spec: the \<open>type\<close> of a primitive fragment, the name of the kind in
  section 3, \<open>integer\<close> for the bigint-like integer.\<close>

definition type_name :: "atomic \<Rightarrow> string" where
  "type_name a =
     (case a of
        AString \<Rightarrow> ''string''
      | ANumber \<Rightarrow> ''number''
      | ABoolean \<Rightarrow> ''boolean''
      | ABigint \<Rightarrow> ''integer''
      | ANull \<Rightarrow> ''null''
      | AUndefined \<Rightarrow> ''undefined''
      | AUnknown \<Rightarrow> ''unknown'')"

text \<open>Modelled from the spec: the fragment of a primitive (section 4.1), \<open>{type, nullable,
  enum?}\<close> with the keys in the order of the expected applications, and the empty fragment
  for the unknown kind.\<close>

definition lower_primitive :: "bool \<Rightarrow> atomic \<Rightarrow> json list option \<Rightarrow> json" where
  "lower_primitive nullable a enum =
     (if a = AUnknown then JObject []
      else JObject ([(''type'', JString (type_name a))]
             @ (case enum of None \<Rightarrow> [] | Some vs \<Rightarrow> [(''enum'', JArray vs)])
             @ [(''nullable'', JBool nullable)]))"

text \<open>Modelled from the spec: a \<open>$ref\<close> into the registry; \<open>refPrefix\<close> is prepended to the
  name (section 6), with the \<open>/\<close> the expected applications show.\<close>

definition reference :: "string \<Rightarrow> string \<Rightarrow> json" where
  "reference refPrefix name = JObject [(''$ref'', JString (refPrefix @ ''/'' @ name))]"

text \<open>Modelled from the spec: the fragment of a tuple (section 4.1), a fixed-length array
  schema. The specification fixes only that the \<open>ajv\<close> dialect states the length and that
  \<open>swagger\<close> approximates with one items schema; this rendering is one that does, and no
  theorem below depends on it.\<close>

definition lower_tuple :: "purpose \<Rightarrow> bool \<Rightarrow> json list \<Rightarrow> json" where
  "lower_tuple p nullable items =
     (case p of
        Swagger \<Rightarrow>
          JObject [(''type'', JString ''array''),
                   (''items'', JObject [(''oneOf'', JArray items)]),
                   (''nullable'', JBool nullable)]
      | Ajv \<Rightarrow>
          JObject [(''type'', JString ''array''),
                   (''items'', JArray items),
                   (''minItems'', JNumber (int (length items))),
                   (''maxItems'', JNumber (int (length items))),
                   (''nullable'', JBool nullable)])"

text \<open>Modelled from the spec: the name of a property of an object node (section 3).\<close>

fun property_name :: "property \<Rightarrow> string" where
  "property_name (Property k e r) = k"

text \<open>Modelled from the spec: \<open>required\<close> (section 4.1), the names of the properties that are
  not optional, in declaration order.\<close>

fun required_names :: "property list \<Rightarrow> string list" where
  "required_names [] = []"
| "required_names (Property k e r # ps) =
     (if r then k # required_names ps else required_names ps)"

text \<open>Modelled from the spec: the fragment of an object (section 4.1): its lowered
  properties, its nullability, \<open>required\<close> and \<open>jsDocTags\<close>, with the keys in the order of the
  expected applications.\<close>

definition object_fragment ::
  "(string \<times> json) list \<Rightarrow> bool \<Rightarrow> string list \<Rightarrow> json list \<Rightarrow> json" where
  "object_fragment props nullable req tags =
     JObject [(''type'', JString ''object''),
              (''properties'', JObject props),
              (''nullable'', JBool nullable),
              (''required'', JArray (map JString req)),
              (''jsDocTags'', JArray tags)]"

text \<open>Modelled from the spec: the naming rule of section 3. A declared name is kept and
  becomes the container of what is nested under it; an anonymous object with no container
  is \<open>__type\<close>, and is the container of its descendants; an anonymous object under the
  container \<open>c\<close> is \<open>c.o<N>\<close>, \<open>N\<close> the next value of the counter of \<open>c\<close>. The result is the
  name, the container for the properties, and the state.\<close>

definition assign_name ::
  "string option \<Rightarrow> string option \<Rightarrow> compiler_state \<Rightarrow> string \<times> string \<times> compiler_state" where
  "assign_name declared container st =
     (case declared of
        Some name \<Rightarrow> (name, name, st)
      | None \<Rightarrow>
          (case container of
             None \<Rightarrow> (''__type'', ''__type'', st)
           | Some c \<Rightarrow>
               (let n = (case map_of (counters st) c of None \<Rightarrow> 0 | Some k \<Rightarrow> k) + 1
                in (c @ ''.o'' @ decimal n, c,
                    st\<lparr>counters := AList.update c n (counters st)\<rparr>))))"

text \<open>Modelled from the spec: the lowering rules of section 4.1, threading the state of the
  compile. \<open>lower\<close> lowers an edge, \<open>lower_node\<close> a node under the nullability of the edge
  into it. An object is hoisted: its name is entered in the registry before its properties
  are lowered (so a name is lowered at most once, and a later visit only refers to it),
  the fragment is stored under the name afterwards, and the edge lowers to a \<open>$ref\<close>.
  Section 4.1 requires this of a named object and of a recursive anonymous one and leaves
  the other anonymous objects open; they are hoisted too, as the expected application of
  the anonymous object shows. A union lowers to \<open>oneOf\<close> over its alternatives in order;
  the wrapper carries no \<open>nullable\<close>, so the nullability of the edge into the union is
  carried by every alternative, as the \<open>sex\<close> fragment of the aliased object shows. The
  members of an intersection are merged into the one object registered under the
  intersection's name: each member must be an object shape, and a property name a
  previous member has is a collision. A back-reference lowers to a \<open>$ref\<close> to the name it
  carries.\<close>

function (sequential) lower ::
  "purpose \<Rightarrow> string \<Rightarrow> string option \<Rightarrow> compiler_state \<Rightarrow> edge \<Rightarrow> json compiled"
and lower_node ::
  "purpose \<Rightarrow> string \<Rightarrow> string option \<Rightarrow> compiler_state \<Rightarrow> bool \<Rightarrow> type_ir
     \<Rightarrow> json compiled"
and lower_list ::
  "purpose \<Rightarrow> string \<Rightarrow> string option \<Rightarrow> compiler_state \<Rightarrow> edge list \<Rightarrow> json list compiled"
and lower_alternatives ::
  "purpose \<Rightarrow> string \<Rightarrow> string option \<Rightarrow> compiler_state \<Rightarrow> bool \<Rightarrow> type_ir list
     \<Rightarrow> json list compiled"
and lower_props ::
  "purpose \<Rightarrow> string \<Rightarrow> string option \<Rightarrow> compiler_state \<Rightarrow> property list
     \<Rightarrow> (string \<times> json) list compiled"
and lower_members ::
  "purpose \<Rightarrow> string \<Rightarrow> string option \<Rightarrow> compiler_state \<Rightarrow> string list \<Rightarrow> type_ir list
     \<Rightarrow> ((string \<times> json) list \<times> string list \<times> json list) compiled"
where
  "lower p refPrefix c st (Edge n t) = lower_node p refPrefix c st n t"
| "lower_node p refPrefix c st n (TPrimitive a f enum) = Inr (lower_primitive n a enum, st)"
| "lower_node p refPrefix c st n (TArray e) =
     (case lower p refPrefix c st e of
        Inl err \<Rightarrow> Inl err
      | Inr (items, st1) \<Rightarrow>
          Inr (JObject [(''type'', JString ''array''), (''items'', items),
                        (''nullable'', JBool n)], st1))"
| "lower_node p refPrefix c st n (TTuple es) =
     (case lower_list p refPrefix c st es of
        Inl err \<Rightarrow> Inl err
      | Inr (items, st1) \<Rightarrow> Inr (lower_tuple p n items, st1))"
| "lower_node p refPrefix c st n (TUnion ts) =
     (case lower_alternatives p refPrefix c st n ts of
        Inl err \<Rightarrow> Inl err
      | Inr (alternatives, st1) \<Rightarrow> Inr (JObject [(''oneOf'', JArray alternatives)], st1))"
| "lower_node p refPrefix c st n (TReference name) = Inr (reference refPrefix name, st)"
| "lower_node p refPrefix c st n (TObject declared org props tags) =
     (case assign_name declared c st of
        (name, c1, st1) \<Rightarrow>
          if name \<in> set (map fst (registry st1)) then Inr (reference refPrefix name, st1)
          else
            (case lower_props p refPrefix (Some c1)
                    (st1\<lparr>registry := registry st1 @ [(name, JObject [])]\<rparr>) props of
               Inl err \<Rightarrow> Inl err
             | Inr (ps, st2) \<Rightarrow>
                 Inr (reference refPrefix name,
                      st2\<lparr>registry :=
                        AList.update name (object_fragment ps n (required_names props) tags)
                          (registry st2)\<rparr>)))"
| "lower_node p refPrefix c st n (TIntersection declared members) =
     (case assign_name declared c st of
        (name, c1, st1) \<Rightarrow>
          if name \<in> set (map fst (registry st1)) then Inr (reference refPrefix name, st1)
          else
            (case lower_members p refPrefix (Some c1)
                    (st1\<lparr>registry := registry st1 @ [(name, JObject [])]\<rparr>) [] members of
               Inl err \<Rightarrow> Inl err
             | Inr ((ps, req, tags), st2) \<Rightarrow>
                 Inr (reference refPrefix name,
                      st2\<lparr>registry :=
                        AList.update name (object_fragment ps n req tags) (registry st2)\<rparr>)))"
| "lower_list p refPrefix c st [] = Inr ([], st)"
| "lower_list p refPrefix c st (e # es) =
     (case lower p refPrefix c st e of
        Inl err \<Rightarrow> Inl err
      | Inr (j, st1) \<Rightarrow>
          (case lower_list p refPrefix c st1 es of
             Inl err \<Rightarrow> Inl err
           | Inr (js, st2) \<Rightarrow> Inr (j # js, st2)))"
| "lower_alternatives p refPrefix c st n [] = Inr ([], st)"
| "lower_alternatives p refPrefix c st n (t # ts) =
     (case lower_node p refPrefix c st n t of
        Inl err \<Rightarrow> Inl err
      | Inr (j, st1) \<Rightarrow>
          (case lower_alternatives p refPrefix c st1 n ts of
             Inl err \<Rightarrow> Inl err
           | Inr (js, st2) \<Rightarrow> Inr (j # js, st2)))"
| "lower_props p refPrefix c st [] = Inr ([], st)"
| "lower_props p refPrefix c st (Property k e r # ps) =
     (case lower p refPrefix c st e of
        Inl err \<Rightarrow> Inl err
      | Inr (j, st1) \<Rightarrow>
          (case lower_props p refPrefix c st1 ps of
             Inl err \<Rightarrow> Inl err
           | Inr (js, st2) \<Rightarrow> Inr ((k, j) # js, st2)))"
| "lower_members p refPrefix c st seen [] = Inr (([], [], []), st)"
| "lower_members p refPrefix c st seen (TObject declared org props tags # ms) =
     (case List.find (\<lambda>k. k \<in> set seen) (map property_name props) of
        Some k \<Rightarrow> Inl (PropertyCollision k)
      | None \<Rightarrow>
          (case lower_props p refPrefix c st props of
             Inl err \<Rightarrow> Inl err
           | Inr (ps, st1) \<Rightarrow>
               (case lower_members p refPrefix c st1 (seen @ map property_name props) ms of
                  Inl err \<Rightarrow> Inl err
                | Inr ((qs, req, tags'), st2) \<Rightarrow>
                    Inr ((ps @ qs, required_names props @ req, tags @ tags'), st2))))"
| "lower_members p refPrefix c st seen (m # ms) = Inl NonObjectIntersection"
  by pat_completeness auto
termination
  by (relation "measure
        (case_sum
          (case_sum (\<lambda>(p, r, c, st, e). size e)
            (case_sum (\<lambda>(p, r, c, st, n, t). size t)
                      (\<lambda>(p, r, c, st, es). size_list size es)))
          (case_sum (\<lambda>(p, r, c, st, n, ts). size_list size ts)
            (case_sum (\<lambda>(p, r, c, st, ps). size_list size ps)
                      (\<lambda>(p, r, c, st, seen, ms). size_list size ms))))")
     auto

text \<open>Modelled from the spec: \<open>buildSchemaApplication\<close> (section 6): one fragment per root, in
  request order, over one registry that starts empty; a root is given as the edge into it.
  The application carries \<open>purpose\<close> and \<open>prefix\<close> as the expected applications do.\<close>

definition buildSchemaApplication ::
  "edge list \<Rightarrow> purpose \<Rightarrow> string \<Rightarrow> compile_error + json" where
  "buildSchemaApplication roots p refPrefix =
     (case lower_list p refPrefix None \<lparr>registry = [], counters = []\<rparr> roots of
        Inl err \<Rightarrow> Inl err
      | Inr (schemas, st) \<Rightarrow>
          Inr (JObject [(''schemas'', JArray schemas),
                        (''components'', JObject [(''schemas'', JObject (registry st))]),
                        (''purpose'', JString (purpose_name p)),
                        (''prefix'', JString refPrefix)]))"

section \<open>The types of the test scenarios\<close>

text \<open>
  The types the tests compile are declared under \<open>test/structures\<close>, which is not among the
  sources. They are written as the scenarios of section 8 describe them, with the names,
  properties and literal order that the expected applications show.
\<close>

text \<open>Modelled from the spec: an edge into the primitive \<open>string\<close>.\<close>

definition string_type :: "bool \<Rightarrow> edge" where
  "string_type nullable = Edge nullable (TPrimitive AString None None)"

text \<open>Modelled from the spec: an edge into the primitive \<open>number\<close>.\<close>

definition number_type :: "bool \<Rightarrow> edge" where
  "number_type nullable = Edge nullable (TPrimitive ANumber None None)"

text \<open>Modelled from the spec: an edge into the primitive \<open>boolean\<close>.\<close>

definition boolean_type :: "bool \<Rightarrow> edge" where
  "boolean_type nullable = Edge nullable (TPrimitive ABoolean None None)"

text \<open>Modelled from the spec: an edge into the unknown, fully open type.\<close>

definition unknown_type :: edge where
  "unknown_type = Edge False (TPrimitive AUnknown None None)"

text \<open>Modelled from the spec: \<open>ObjectAlias.IMember\<close> (\<open>test/structures/ObjectAlias.ts\<close>), the
  object of the first scenario of section 8: \<open>id\<close> a nullable string, \<open>email\<close> and \<open>name\<close>
  strings, \<open>sex\<close> a nullable union of the number literals 1, 2 and the string literals
  \<open>male\<close>, \<open>female\<close>, \<open>age\<close> a nullable number, \<open>dead\<close> a nullable boolean. A literal set has no
  order of its own; the order in which the front-end lists the number literals is the
  parameter \<open>numbers\<close>.\<close>

definition ObjectAlias_IMember :: "json list \<Rightarrow> type_ir" where
  "ObjectAlias_IMember numbers =
     TObject (Some ''ObjectAlias.IMember'') (Some UserNamed)
       [Property ''id'' (string_type True) True,
        Property ''email'' (string_type False) True,
        Property ''name'' (string_type False) True,
        Property ''sex''
          (Edge True (TUnion
             [TPrimitive ANumber None (Some numbers),
              TPrimitive AString None (Some [JString ''male'', JString ''female''])]))
          True,
        Property ''age'' (number_type True) True,
        Property ''dead'' (boolean_type True) True]
       []"

text \<open>Modelled from the spec: \<open>ObjectAlias\<close> (\<open>test/structures/ObjectAlias.ts\<close>), an array of the
  member type.\<close>

definition ObjectAlias :: "json list \<Rightarrow> edge" where
  "ObjectAlias numbers = Edge False (TArray (Edge False (ObjectAlias_IMember numbers)))"

text \<open>Modelled from the spec: the element of \<open>files\<close> in \<open>ObjectPrimitive\<close>
  (\<open>test/structures/ObjectPrimitive.ts\<close>), the nested anonymous object of the second scenario.\<close>

definition ObjectPrimitive_IFile :: type_ir where
  "ObjectPrimitive_IFile =
     TObject None (Some AnonymousLiteral)
       [Property ''id'' (string_type False) True,
        Property ''name'' (string_type False) True,
        Property ''extension'' (string_type False) True,
        Property ''url'' (string_type False) True,
        Property ''created_at'' (string_type False) True]
       []"

text \<open>Modelled from the spec: \<open>ObjectPrimitive\<close> (\<open>test/structures/ObjectPrimitive.ts\<close>), a
  type with no name and one nested anonymous object property.\<close>

definition ObjectPrimitive :: edge where
  "ObjectPrimitive =
     Edge False (TObject None (Some AnonymousLiteral)
       [Property ''id'' (string_type False) True,
        Property ''extension''
          (Edge False (TPrimitive AString None
             (Some [JString ''txt'', JString ''md'', JString ''html''])))
          True,
        Property ''title'' (string_type False) True,
        Property ''body'' (string_type False) True,
        Property ''files'' (Edge False (TArray (Edge False ObjectPrimitive_IFile))) True,
        Property ''secret'' (boolean_type False) True,
        Property ''created_at'' (string_type False) True]
       [])"

text \<open>Modelled from the spec: \<open>ObjectIntersection\<close>
  (\<open>test/structures/ObjectIntersection.ts\<close>), the third scenario: two object types with
  disjoint properties, intersected.\<close>

definition ObjectIntersection :: edge where
  "ObjectIntersection =
     Edge False (TIntersection (Some ''ObjectIntersection'')
       [TObject (Some ''ObjectIntersection.IEmail'') (Some UserNamed)
          [Property ''email'' (string_type False) True,
           Property ''name'' (string_type False) True] [],
        TObject (Some ''ObjectIntersection.IVulnerable'') (Some UserNamed)
          [Property ''vulnerable'' (boolean_type False) True] []])"

text \<open>Modelled from the spec: the same three properties as an intersection of three members
  of one property each.\<close>

definition ObjectIntersection3 :: edge where
  "ObjectIntersection3 =
     Edge False (TIntersection (Some ''ObjectIntersection'')
       [TObject (Some ''ObjectIntersection.IEmail'') (Some UserNamed)
          [Property ''email'' (string_type False) True] [],
        TObject (Some ''ObjectIntersection.IName'') (Some UserNamed)
          [Property ''name'' (string_type False) True] [],
        TObject (Some ''ObjectIntersection.IVulnerable'') (Some UserNamed)
          [Property ''vulnerable'' (boolean_type False) True] []])"

text \<open>Modelled from the spec: \<open>ObjectClosure\<close> (\<open>test/structures/ObjectClosure.ts\<close>), the
  fourth scenario: \<open>open\<close> has a fully open type.\<close>

definition ObjectClosure :: edge where
  "ObjectClosure =
     Edge False (TObject (Some ''ObjectClosure.IRecord'') (Some UserNamed)
       [Property ''id'' (string_type False) True,
        Property ''open'' unknown_type True]
       [])"

text \<open>Reading inside the result of a compile; \<open>None\<close> when the compile failed.\<close>

definition application_at :: "selector list \<Rightarrow> compile_error + json \<Rightarrow> json option" where
  "application_at sel result = (case result of Inl err \<Rightarrow> None | Inr app \<Rightarrow> json_at sel app)"

text \<open>The declared properties of an object node.\<close>

fun properties_of :: "type_ir \<Rightarrow> property list" where
  "properties_of (TObject declared org props tags) = props"
| "properties_of t = []"

text \<open>The required flag of a property.\<close>

fun is_required :: "property \<Rightarrow> bool" where
  "is_required (Property k e r) = r"

text \<open>Whether the type of a property is a primitive.\<close>

fun is_primitive :: "property \<Rightarrow> bool" where
  "is_primitive (Property k (Edge n (TPrimitive a f enum)) r) = True"
| "is_primitive p = False"

text \<open>The entry of a property of primitive type in \<open>properties\<close>.\<close>

fun primitive_entry :: "property \<Rightarrow> string \<times> json" where
  "primitive_entry (Property k (Edge n (TPrimitive a f enum)) r) = (k, lower_primitive n a enum)"
| "primitive_entry (Property k e r) = (k, JObject [])"

section \<open>Helper facts\<close>

lemma substring_prefix:
  "(length l \<ge> length p \<and> substring l 0 (length p) = p) = prefix p l"
proof
  assume "length l \<ge> length p \<and> substring l 0 (length p) = p"
  then have "take (length p) l = p"
    by (simp add: substring_def Let_def min_def max_def split: if_splits)
  then show "prefix p l"
    by (metis take_is_prefix)
next
  assume h: "prefix p l"
  then obtain r where l: "l = p @ r"
    by (auto simp: prefix_def)
  show "length l \<ge> length p \<and> substring l 0 (length p) = p"
    by (simp add: l substring_def Let_def min_def max_def)
qed

lemma validate_predicate_fatal_returns:
  "closure () = Inr error \<Longrightarrow>
   validate_predicate res False True closure =
     (Inr False,
      if errors res \<noteq> [] \<and> prefix (path error) (path (last (errors res)))
      then res\<lparr>success := False\<rparr>
      else res\<lparr>success := False, errors := errors res @ [error]\<rparr>)"
proof (cases "errors res = []")
  case True
  assume "closure () = Inr error"
  with True show ?thesis
    by (simp add: validate_predicate_def Let_def)
next
  case False
  assume c: "closure () = Inr error"
  from False have "errors res ! (length (errors res) - 1) = last (errors res)"
    by (simp add: last_conv_nth)
  with False c show ?thesis
    by (simp add: validate_predicate_def Let_def substring_prefix)
qed

lemma validate_predicate_fatal_throws:
  "closure () = Inl thrown \<Longrightarrow>
   validate_predicate res False True closure = (Inl thrown, res\<lparr>success := False\<rparr>)"
  by (simp add: validate_predicate_def Let_def)

lemma validate_predicate_frame:
  "matched \<or> \<not> exceptionable \<Longrightarrow>
     validate_predicate res matched exceptionable closure = (Inr matched, res)"
  by (auto simp: validate_predicate_def)



lemma validate_predicate_step_errors:
  "errors (snd (validate_predicate r m x c)) =
     (if \<not> m \<and> x then
        (case c () of
           Inl thrown \<Rightarrow> errors r
         | Inr error \<Rightarrow>
             if errors r \<noteq> [] \<and> prefix (path error) (path (last (errors r)))
             then errors r else errors r @ [error])
      else errors r)"
proof (cases "\<not> m \<and> x")
  case True
  then have mx: "m = False" "x = True"
    by simp_all
  show ?thesis
  proof (cases "c ()")
    case (Inl thrown)
    then show ?thesis
      by (simp add: mx validate_predicate_fatal_throws)
  next
    case (Inr error)
    then show ?thesis
      by (simp add: mx validate_predicate_fatal_returns)
  qed
next
  case False
  then have "validate_predicate r m x c = (Inr m, r)"
    by (auto simp: validate_predicate_frame)
  with False show ?thesis by auto
qed


section \<open>Helper facts about the schema compiler\<close>

lemma decimal_digit: "n < 10 \<Longrightarrow> decimal n = [''0123456789'' ! n]"
  by (simp add: decimal.simps)

lemmas scenario_defs =
  buildSchemaApplication_def application_at_def default_prefix_def purpose_name_def
  assign_name_def reference_def lower_primitive_def object_fragment_def type_name_def
  string_type_def number_type_def boolean_type_def unknown_type_def decimal_digit

lemma lower_edge:
  "lower p refPrefix c st (Edge n (TPrimitive a f enum)) = Inr (lower_primitive n a enum, st)"
  "lower p refPrefix c st (Edge n (TArray e)) =
     (case lower p refPrefix c st e of
        Inl err \<Rightarrow> Inl err
      | Inr (items, st1) \<Rightarrow>
          Inr (JObject [(''type'', JString ''array''), (''items'', items),
                        (''nullable'', JBool n)], st1))"
  "lower p refPrefix c st (Edge n (TObject declared org props tags)) =
     (case assign_name declared c st of
        (name, c1, st1) \<Rightarrow>
          if name \<in> set (map fst (registry st1)) then Inr (reference refPrefix name, st1)
          else
            (case lower_props p refPrefix (Some c1)
                    (st1\<lparr>registry := registry st1 @ [(name, JObject [])]\<rparr>) props of
               Inl err \<Rightarrow> Inl err
             | Inr (ps, st2) \<Rightarrow>
                 Inr (reference refPrefix name,
                      st2\<lparr>registry :=
                        AList.update name (object_fragment ps n (required_names props) tags)
                          (registry st2)\<rparr>)))"
  "lower p refPrefix c st (Edge n (TIntersection declared members)) =
     (case assign_name declared c st of
        (name, c1, st1) \<Rightarrow>
          if name \<in> set (map fst (registry st1)) then Inr (reference refPrefix name, st1)
          else
            (case lower_members p refPrefix (Some c1)
                    (st1\<lparr>registry := registry st1 @ [(name, JObject [])]\<rparr>) [] members of
               Inl err \<Rightarrow> Inl err
             | Inr ((ps, req, tags), st2) \<Rightarrow>
                 Inr (reference refPrefix name,
                      st2\<lparr>registry :=
                        AList.update name (object_fragment ps n req tags) (registry st2)\<rparr>)))"
  by simp_all

lemma lower_unknown:
  "lower p refPrefix c st (Edge n (TPrimitive AUnknown f enum)) = Inr (JObject [], st)"
  by (simp add: lower_primitive_def)

lemma lower_props_append:
  "lower_props p refPrefix c st (ps @ qs) =
     (case lower_props p refPrefix c st ps of
        Inl err \<Rightarrow> Inl err
      | Inr (js, st1) \<Rightarrow>
          (case lower_props p refPrefix c st1 qs of
             Inl err \<Rightarrow> Inl err
           | Inr (ks, st2) \<Rightarrow> Inr (js @ ks, st2)))"
proof (induction ps arbitrary: st)
  case Nil
  show ?case by (simp split: sum.splits)
next
  case (Cons a ps)
  obtain k e r where a: "a = Property k e r"
    by (cases a)
  show ?case
    by (simp add: a Cons.IH split: sum.splits prod.splits)
qed

lemma lower_props_keys:
  "lower_props p refPrefix c st ps = Inr (js, st') \<Longrightarrow> map fst js = map property_name ps"
proof (induction ps arbitrary: st js)
  case Nil
  then show ?case by simp
next
  case (Cons a ps)
  obtain k e r where a: "a = Property k e r"
    by (cases a)
  from Cons.prems obtain j st1 ks where
    "lower p refPrefix c st e = Inr (j, st1)"
    "lower_props p refPrefix c st1 ps = Inr (ks, st')" "js = (k, j) # ks"
    by (auto simp: a split: sum.splits prod.splits)
  then show ?case
    using Cons.IH [of st1 ks] by (simp add: a)
qed

lemma lower_props_unknown:
  "lower_props p refPrefix c st ps = Inr (js, st') \<Longrightarrow>
   Property k (Edge n (TPrimitive AUnknown f enum)) r \<in> set ps \<Longrightarrow>
   (k, JObject []) \<in> set js"
proof (induction ps arbitrary: st js)
  case Nil
  then show ?case by simp
next
  case (Cons a ps)
  obtain k' e' r' where a: "a = Property k' e' r'"
    by (cases a)
  from Cons.prems(1) obtain j st1 ks where
    l: "lower p refPrefix c st e' = Inr (j, st1)"
    and t: "lower_props p refPrefix c st1 ps = Inr (ks, st')" and js: "js = (k', j) # ks"
    by (auto simp: a split: sum.splits prod.splits)
  show ?case
  proof (cases "a = Property k (Edge n (TPrimitive AUnknown f enum)) r")
    case True
    then have "j = JObject []"
      using l by (auto simp: a lower_primitive_def)
    with True show ?thesis
      by (simp add: a js)
  next
    case False
    with Cons.prems(2) have "Property k (Edge n (TPrimitive AUnknown f enum)) r \<in> set ps"
      by simp
    then have "(k, JObject []) \<in> set ks"
      using Cons.IH [OF t] by simp
    then show ?thesis
      by (simp add: js)
  qed
qed

lemma required_names_append:
  "required_names (ps @ qs) = required_names ps @ required_names qs"
proof (induction ps)
  case Nil
  show ?case by simp
next
  case (Cons a ps)
  obtain k e r where a: "a = Property k e r"
    by (cases a)
  show ?case
    by (simp add: a Cons.IH)
qed

lemma required_names_all:
  "list_all is_required ps \<Longrightarrow> required_names ps = map property_name ps"
proof (induction ps)
  case Nil
  show ?case by simp
next
  case (Cons a ps)
  obtain k e r where a: "a = Property k e r"
    by (cases a)
  show ?case
    using Cons by (simp add: a)
qed

lemma required_names_member:
  "Property k e True \<in> set ps \<Longrightarrow> k \<in> set (required_names ps)"
proof (induction ps)
  case Nil
  then show ?case by simp
next
  case (Cons a ps)
  obtain k' e' r' where a: "a = Property k' e' r'"
    by (cases a)
  show ?case
    using Cons by (auto simp: a)
qed

lemma find_disjoint:
  "set xs \<inter> set ys = {} \<Longrightarrow> List.find (\<lambda>k. k \<in> set xs) ys = None"
  by (auto simp: find_None_iff)

lemma find_never: "List.find (\<lambda>k. False) xs = None"
  by (simp add: find_None_iff)

lemma lower_intersection_two:
  assumes "set (map property_name ps) \<inter> set (map property_name qs) = {}"
  shows "lower p refPrefix c st
           (Edge n (TIntersection declared [TObject dA oA ps tA, TObject dB oB qs tB]))
         = lower p refPrefix c st (Edge n (TObject declared org (ps @ qs) (tA @ tB)))"
proof -
  have "List.find (\<lambda>k. k \<in> set (map property_name ps)) (map property_name qs) = None"
    using assms by (rule find_disjoint)
  then have f: "List.find (\<lambda>k. k \<in> property_name ` set ps) (map property_name qs) = None"
    by simp
  have m: "lower_members p refPrefix c' s [] [TObject dA oA ps tA, TObject dB oB qs tB] =
      (case lower_props p refPrefix c' s (ps @ qs) of
         Inl err \<Rightarrow> Inl err
       | Inr (js, s') \<Rightarrow> Inr ((js, required_names (ps @ qs), tA @ tB), s'))" for c' s
    by (simp add: f find_never lower_props_append required_names_append
        split: sum.splits prod.splits)
  show ?thesis
    unfolding lower_edge(3,4) m
    by (simp split: sum.splits prod.splits)
qed

lemma assign_name_registry:
  "registry (snd (snd (assign_name declared c st))) = registry st"
  by (simp add: assign_name_def Let_def split: option.splits)

lemma lower_object_registered:
  assumes l: "lower p refPrefix c st (Edge m (TObject declared org props tags)) = Inr (j, st')"
    and fresh: "fst (assign_name declared c st) \<notin> set (map fst (registry st))"
  shows "\<exists>pjs. map_of (registry st') (fst (assign_name declared c st))
             = Some (object_fragment pjs m (required_names props) tags)
           \<and> map fst pjs = map property_name props
           \<and> (\<forall>k n f enum r. Property k (Edge n (TPrimitive AUnknown f enum)) r \<in> set props
                 \<longrightarrow> (k, JObject []) \<in> set pjs)
           \<and> j = reference refPrefix (fst (assign_name declared c st))"
proof -
  obtain name c1 st1 where a: "assign_name declared c st = (name, c1, st1)"
    by (cases "assign_name declared c st")
  have r: "registry st1 = registry st"
    using assign_name_registry [of declared c st] by (simp add: a)
  from fresh have nf: "name \<notin> set (map fst (registry st1))"
    by (simp add: a r)
  let ?s = "st1\<lparr>registry := registry st1 @ [(name, JObject [])]\<rparr>"
  from l nf obtain pjs st2 where
    lp: "lower_props p refPrefix (Some c1) ?s props = Inr (pjs, st2)"
    and st': "st' = st2\<lparr>registry :=
                AList.update name (object_fragment pjs m (required_names props) tags)
                  (registry st2)\<rparr>"
    and j: "j = reference refPrefix name"
    by (auto simp: a split: sum.splits prod.splits if_splits)
  have "map_of (registry st') name = Some (object_fragment pjs m (required_names props) tags)"
    by (simp add: st' update_conv')
  moreover have "map fst pjs = map property_name props"
    using lp by (rule lower_props_keys)
  moreover have "\<forall>k n f enum r. Property k (Edge n (TPrimitive AUnknown f enum)) r \<in> set props
                 \<longrightarrow> (k, JObject []) \<in> set pjs"
    using lower_props_unknown [OF lp] by blast
  ultimately show ?thesis
    using j by (auto simp: a)
qed

lemma lower_props_primitive:
  "list_all is_primitive ps \<Longrightarrow>
   lower_props p refPrefix c st ps = Inr (map primitive_entry ps, st)"
proof (induction ps)
  case Nil
  show ?case by simp
next
  case (Cons a ps)
  from Cons.prems have "is_primitive a"
    by simp
  then obtain k n t f enum r where a: "a = Property k (Edge n (TPrimitive t f enum)) r"
    by (cases a rule: is_primitive.cases) auto
  show ?case
    using Cons by (simp add: a)
qed

lemma primitive_entry_key: "fst (primitive_entry a) = property_name a"
  by (cases a rule: primitive_entry.cases) auto

lemma map_of_append_fresh:
  "k \<notin> set (map fst xs) \<Longrightarrow> map_of (xs @ (k, v) # ys) k = Some v"
  by (induction xs) auto

lemma lower_nested_anonymous:
  assumes "list_all is_primitive qs"
  shows "lower p refPrefix (Some ''__type'')
           \<lparr>registry = [(''__type'', JObject [])], counters = []\<rparr>
           (Edge m (TObject None org2 qs tags2))
         = Inr (reference refPrefix ''__type.o1'',
                \<lparr>registry = [(''__type'', JObject []),
                     (''__type.o1'',
                      object_fragment (map primitive_entry qs) m (required_names qs) tags2)],
                  counters = [(''__type'', 1)]\<rparr>)"
  by (simp add: assign_name_def decimal_digit lower_props_primitive [OF assms])

lemma json_at_append:
  "json_at (ks @ ks') j = (case json_at ks j of None \<Rightarrow> None | Some v \<Rightarrow> json_at ks' v)"
  by (induction ks j rule: json_at.induct) (auto split: option.splits)

section \<open>Claims about the predicates and the stubs\<close>

text \<open>
  C1, as stated: in accumulating validation, an error whose path strictly extends the path of
  the error recorded just before it is dropped, so that after an error at \<open>a.b\<close> none is
  recorded for \<open>a.b.c\<close>. The code compares the other way round: starting from a fresh
  accumulator, the error at \<open>$input.a.b\<close> is recorded, and the error at \<open>$input.a.b.c\<close> that
  follows it is recorded as well.
\<close>

theorem validate_predicate_child_error_recorded:
  "errors (validate_calls \<lparr>success = True, errors = []\<rparr>
             [(False, True, closure_a_b)]) = [error_a_b]
   \<and> closure_a_b_c () = Inr error_a_b_c
   \<and> strict_prefix (path error_a_b) (path error_a_b_c)
   \<and> errors (validate_calls \<lparr>success = True, errors = []\<rparr>
             [(False, True, closure_a_b), (False, True, closure_a_b_c)])
       = [error_a_b, error_a_b_c]"
  by (simp add: validate_predicate_def substring_def closure_a_b_def closure_a_b_c_def
      error_a_b_def error_a_b_c_def strict_prefix_def)

text \<open>
  C1, amended: a failing, exceptionable check whose closure returns an error drops that
  error exactly when the accumulator is not empty and the new error's path is a prefix of
  (or equal to) the path of the error recorded last; otherwise the error is appended. So
  an error whose path strictly extends the last recorded path is appended. When the
  closure throws, nothing is appended.
\<close>

theorem validate_predicate_suppression:
  "errors (snd (validate_predicate res False True closure)) =
     (case closure () of
        Inl thrown \<Rightarrow> errors res
      | Inr error \<Rightarrow>
          if errors res \<noteq> [] \<and> prefix (path error) (path (last (errors res)))
          then errors res
          else errors res @ [error])
   \<and> (closure () = Inr new \<and> errors res \<noteq> [] \<and>
        strict_prefix (path (last (errors res))) (path new) \<longrightarrow>
        errors (snd (validate_predicate res False True closure)) = errors res @ [new])"
proof -
  have a: "errors (snd (validate_predicate res False True closure)) =
     (case closure () of
        Inl thrown \<Rightarrow> errors res
      | Inr error \<Rightarrow>
          if errors res \<noteq> [] \<and> prefix (path error) (path (last (errors res)))
          then errors res
          else errors res @ [error])"
    by (simp add: validate_predicate_step_errors)
  have b: "errors (snd (validate_predicate res False True closure)) = errors res @ [new]"
    if "closure () = Inr new" and "errors res \<noteq> []"
      and "strict_prefix (path (last (errors res))) (path new)"
  proof -
    from that(3) have "\<not> prefix (path new) (path (last (errors res)))"
      by (auto simp: strict_prefix_def)
    with that(1) show ?thesis
      by (simp add: a)
  qed
  from a b show ?thesis
    by blast
qed

theorem validate_predicate_suppression_witness:
  "closure_a_b_c () = Inr error_a_b_c
   \<and> errors \<lparr>success = False, errors = [error_a_b]\<rparr> \<noteq> []
   \<and> strict_prefix (path (last (errors \<lparr>success = False, errors = [error_a_b]\<rparr>)))
        (path error_a_b_c)
   \<and> errors (snd (validate_predicate \<lparr>success = False, errors = [error_a_b]\<rparr>
                    False True closure_a_b_c)) = [error_a_b, error_a_b_c]
   \<and> closure_a_b () = Inr error_a_b
   \<and> prefix (path error_a_b) (path error_a_b_c)
   \<and> errors (snd (validate_predicate \<lparr>success = False, errors = [error_a_b_c]\<rparr>
                    False True closure_a_b)) = [error_a_b_c]
   \<and> errors (snd (validate_predicate \<lparr>success = False, errors = [error_a_b_c]\<rparr>
                    False True throwing)) = [error_a_b_c]"
  using validate_predicate_suppression
          [of "\<lparr>success = False, errors = [error_a_b]\<rparr>" closure_a_b_c error_a_b_c]
        validate_predicate_suppression
          [of "\<lparr>success = False, errors = [error_a_b_c]\<rparr>" closure_a_b error_a_b]
        validate_predicate_suppression
          [of "\<lparr>success = False, errors = [error_a_b_c]\<rparr>" throwing error_a_b]
  by (simp add: closure_a_b_def closure_a_b_c_def throwing_def error_a_b_def error_a_b_c_def
      strict_prefix_def)

text \<open>
  C2, as stated: for every closure, \<open>assertType.predicate\<close> throws a \<open>TypeGuardError\<close> with
  method \<open>TSON.assertType\<close> exactly when \<open>matched\<close> is false and \<open>exceptionable\<close> is true. At
  such a check a closure whose object has a \<open>method\<close> key of its own gives the error that
  method, and a closure that throws leaves the call with its own exception.
\<close>

theorem assertType_predicate_other_method_or_exception:
  "assertType_predicate False True props_own_method =
     Inl (TypeGuardError \<lparr>path = ''$input.a.b'', expected = ''Resolved<B>'',
            value = ''\"text\"'', method = ''custom''\<rparr>)
   \<and> ''custom'' \<noteq> ''TSON.assertType''
   \<and> assertType_predicate False True throwing = Inl (Thrown ''closure failed'')"
  by (simp add: assertType_predicate_def props_own_method_def throwing_def)

text \<open>
  C2, amended: \<open>assertType.predicate\<close> throws exactly when \<open>matched\<close> is false and
  \<open>exceptionable\<close> is true; in every other case it returns \<open>matched\<close> and does not call the
  closure. What it throws is the closure's own exception when the closure throws, and
  otherwise a \<open>TypeGuardError\<close> with the path, expected and value of the closure's object and
  the method \<open>TSON.assertType\<close>, or the \<open>method\<close> of the closure's object when it has one. A
  sequence of calls ends at its first fatal check site, as the call at that site ends, and
  returns every \<open>matched\<close> when it has none.
\<close>

theorem assertType_predicate_throws:
  "assertType_predicate matched exceptionable closure =
     (if \<not> matched \<and> exceptionable
      then (case closure () of
              Inl thrown \<Rightarrow> Inl thrown
            | Inr props \<Rightarrow>
                Inl (TypeGuardError
                  \<lparr>path = path props, expected = expected props, value = value props,
                   method = (case method_key props of
                               None \<Rightarrow> ''TSON.assertType''
                             | Some own \<Rightarrow> own)\<rparr>))
      else Inr matched)
   \<and> ((\<exists>e. assertType_predicate matched exceptionable closure = Inl e)
        = (\<not> matched \<and> exceptionable))
   \<and> (matched \<or> \<not> exceptionable \<longrightarrow>
        assertType_predicate matched exceptionable closure
          = assertType_predicate matched exceptionable other)
   \<and> assertType_calls cs =
       (case List.find fatal cs of
          None \<Rightarrow> Inr (map fst cs)
        | Some (m, x, c) \<Rightarrow>
            (case c () of
               Inl thrown \<Rightarrow> Inl thrown
             | Inr props \<Rightarrow>
                 Inl (TypeGuardError
                   \<lparr>path = path props, expected = expected props, value = value props,
                    method = (case method_key props of
                                None \<Rightarrow> ''TSON.assertType''
                              | Some own \<Rightarrow> own)\<rparr>)))"
proof -
  have one: "assertType_predicate m x c =
     (if \<not> m \<and> x
      then (case c () of
              Inl thrown \<Rightarrow> Inl thrown
            | Inr props \<Rightarrow>
                Inl (TypeGuardError
                  \<lparr>path = path props, expected = expected props, value = value props,
                   method = (case method_key props of
                               None \<Rightarrow> ''TSON.assertType''
                             | Some own \<Rightarrow> own)\<rparr>))
      else Inr m)" for m x and c :: "unit \<Rightarrow> ('a, 'b) exn + 'b Omit_IProps"
    by (simp add: assertType_predicate_def)
  have throws: "(\<exists>e. assertType_predicate matched exceptionable closure = Inl e)
        = (\<not> matched \<and> exceptionable)"
    by (auto simp: one split: sum.splits)
  have frame: "matched \<or> \<not> exceptionable \<longrightarrow>
        assertType_predicate matched exceptionable closure
          = assertType_predicate matched exceptionable other"
    by (auto simp: assertType_predicate_def)
  have many: "assertType_calls cs =
       (case List.find fatal cs of
          None \<Rightarrow> Inr (map fst cs)
        | Some (m, x, c) \<Rightarrow>
            (case c () of
               Inl thrown \<Rightarrow> Inl thrown
             | Inr props \<Rightarrow>
                 Inl (TypeGuardError
                   \<lparr>path = path props, expected = expected props, value = value props,
                    method = (case method_key props of
                                None \<Rightarrow> ''TSON.assertType''
                              | Some own \<Rightarrow> own)\<rparr>)))"
  proof (induction cs)
    case Nil
    show ?case by simp
  next
    case (Cons k ks)
    obtain m x c where k: "k = (m, x, c)"
      by (cases k)
    show ?case
    proof (cases "\<not> m \<and> x")
      case True
      then have mx: "m = False" "x = True"
        by simp_all
      show ?thesis
        by (simp add: k mx assertType_predicate_def split: sum.splits)
    next
      case False
      then have "assertType_predicate m x c = Inr m"
        by (auto simp: assertType_predicate_def)
      with False show ?thesis
        using Cons.IH by (auto simp: k split: option.splits sum.splits)
    qed
  qed
  from one [of matched exceptionable closure] throws frame many show ?thesis
    by blast
qed

theorem assertType_predicate_throws_witness:
  "assertType_predicate False True props_a_b =
     Inl (TypeGuardError \<lparr>path = ''$input.a.b'', expected = ''Resolved<B>'',
            value = ''\"text\"'', method = ''TSON.assertType''\<rparr>)
   \<and> assertType_predicate False False props_a_b = Inr False
   \<and> assertType_predicate True True props_a_b = Inr True
   \<and> assertType_predicate True False throwing = Inr True
   \<and> assertType_predicate False False throwing = assertType_predicate False False props_a_b
   \<and> assertType_calls [(True, True, props_a_b), (False, False, throwing),
        (False, True, props_a_b_c), (False, True, props_a_b)] =
     Inl (TypeGuardError \<lparr>path = ''$input.a.b.c'', expected = ''string'',
            value = ''undefined'', method = ''TSON.assertType''\<rparr>)"
  using assertType_predicate_throws [of False True props_a_b props_a_b
          "[(True, True, props_a_b), (False, False, throwing),
            (False, True, props_a_b_c), (False, True, props_a_b)]"]
        assertType_predicate_throws [of False False props_a_b props_a_b "[]"]
        assertType_predicate_throws [of True True props_a_b props_a_b "[]"]
        assertType_predicate_throws [of True False throwing props_a_b "[]"]
        assertType_predicate_throws [of False False throwing props_a_b "[]"]
        assertType_predicate_throws [of False True props_a_b_c props_a_b "[]"]
  by (simp add: props_a_b_def props_a_b_c_def throwing_def)

text \<open>
  C3: each of the six entry points, reached without the transformer, throws an \<open>Error\<close>
  whatever its arguments; the message names the function and tells the caller to configure
  \<open>tsconfig.json\<close> following the setup guide. \<open>halt\<close> never returns a value.
\<close>

theorem entry_points_halt:
  "TSON_assertType a1 = Inl (Error ''Error on TSON.assertType(): no transform has been configured. Configure the \"tsconfig.json\" file following the [README.md#setup](https://github.com/samchon/typescript-json#setup)'')
   \<and> TSON_is a2 = Inl (Error ''Error on TSON.is(): no transform has been configured. Configure the \"tsconfig.json\" file following the [README.md#setup](https://github.com/samchon/typescript-json#setup)'')
   \<and> TSON_validate a3 = Inl (Error ''Error on TSON.validate(): no transform has been configured. Configure the \"tsconfig.json\" file following the [README.md#setup](https://github.com/samchon/typescript-json#setup)'')
   \<and> TSON_stringify a4 = Inl (Error ''Error on TSON.stringify(): no transform has been configured. Configure the \"tsconfig.json\" file following the [README.md#setup](https://github.com/samchon/typescript-json#setup)'')
   \<and> TSON_create a5 = Inl (Error ''Error on TSON.create(): no transform has been configured. Configure the \"tsconfig.json\" file following the [README.md#setup](https://github.com/samchon/typescript-json#setup)'')
   \<and> TSON_application a6 = Inl (Error ''Error on TSON.application(): no transform has been configured. Configure the \"tsconfig.json\" file following the [README.md#setup](https://github.com/samchon/typescript-json#setup)'')
   \<and> (\<forall>v. halt name \<noteq> Inr v)"
  by (simp add: TSON_assertType_def TSON_is_def TSON_validate_def TSON_stringify_def
      TSON_create_def TSON_application_def halt_def)

text \<open>
  C9: a call of \<open>validate.predicate\<close> with \<open>matched\<close> true or \<open>exceptionable\<close> false returns
  \<open>matched\<close> and leaves the accumulator as it was, whatever the closure is; the accumulator
  changes only when \<open>matched\<close> is false and \<open>exceptionable\<close> is true; a sequence of calls none
  of which is fatal leaves no trace.
\<close>

theorem validate_predicate_no_trace:
  "(matched \<or> \<not> exceptionable \<longrightarrow>
      validate_predicate res matched exceptionable closure = (Inr matched, res))
   \<and> (snd (validate_predicate res matched exceptionable closure) \<noteq> res \<longrightarrow>
        \<not> matched \<and> exceptionable)
   \<and> ((\<forall>c \<in> set cs. \<not> fatal c) \<longrightarrow> validate_calls res cs = res)"
proof -
  have calls: "(\<forall>c \<in> set cs. \<not> fatal c) \<longrightarrow> validate_calls res cs = res"
  proof (induction cs)
    case Nil
    show ?case by simp
  next
    case (Cons k ks)
    obtain m x c where k: "k = (m, x, c)"
      by (cases k)
    show ?case
    proof
      assume h: "\<forall>c \<in> set (k # ks). \<not> fatal c"
      then have "m \<or> \<not> x"
        by (simp add: k)
      then have "validate_predicate res m x c = (Inr m, res)"
        by (rule validate_predicate_frame)
      moreover have "validate_calls res ks = res"
        using h Cons.IH by simp
      ultimately show "validate_calls res (k # ks) = res"
        by (simp add: k)
    qed
  qed
  have frame: "matched \<or> \<not> exceptionable \<longrightarrow>
      validate_predicate res matched exceptionable closure = (Inr matched, res)"
    by (simp add: validate_predicate_frame)
  then have "snd (validate_predicate res matched exceptionable closure) \<noteq> res \<longrightarrow>
        \<not> matched \<and> exceptionable"
    by (cases matched; cases exceptionable) simp_all
  with frame calls show ?thesis by blast
qed

theorem validate_predicate_no_trace_witness:
  "validate_predicate \<lparr>success = True, errors = []\<rparr> False False closure_a_b
     = (Inr False, \<lparr>success = True, errors = []\<rparr>)
   \<and> validate_predicate \<lparr>success = True, errors = []\<rparr> True True closure_a_b
     = (Inr True, \<lparr>success = True, errors = []\<rparr>)
   \<and> validate_predicate \<lparr>success = True, errors = []\<rparr> True True throwing
     = (Inr True, \<lparr>success = True, errors = []\<rparr>)
   \<and> validate_calls \<lparr>success = True, errors = []\<rparr>
        [(False, False, closure_a_b), (True, True, closure_a_b_c), (False, False, throwing)]
     = \<lparr>success = True, errors = []\<rparr>
   \<and> filter fatal
        [(False, False, closure_a_b), (True, True, closure_a_b_c), (False, False, throwing)]
     = []
   \<and> snd (validate_predicate \<lparr>success = True, errors = []\<rparr> False True closure_a_b)
     \<noteq> \<lparr>success = True, errors = []\<rparr>"
proof -
  let ?r = "\<lparr>success = True, errors = [] :: string IError list\<rparr>"
  let ?cs = "[(False, False, closure_a_b), (True, True, closure_a_b_c),
              (False, False, throwing)]"
  have a: "validate_predicate ?r False False closure_a_b = (Inr False, ?r)"
    using validate_predicate_no_trace [of False False ?r closure_a_b "[]"] by simp
  have b: "validate_predicate ?r True True closure_a_b = (Inr True, ?r)"
    using validate_predicate_no_trace [of True True ?r closure_a_b "[]"] by simp
  have b': "validate_predicate ?r True True throwing = (Inr True, ?r)"
    using validate_predicate_no_trace [of True True ?r throwing "[]"] by simp
  have "\<forall>c \<in> set ?cs. \<not> fatal c"
    by simp
  then have c: "validate_calls ?r ?cs = ?r"
    using validate_predicate_no_trace [of True True ?r closure_a_b ?cs] by blast
  have d: "snd (validate_predicate ?r False True closure_a_b) \<noteq> ?r"
    by (simp add: validate_predicate_fatal_returns [of closure_a_b error_a_b] closure_a_b_def)
  have e: "filter fatal ?cs = []"
    by simp
  from a b b' c d e show ?thesis by blast
qed




section \<open>Claims about the schema compiler\<close>

text \<open>
  C4: an array of a named object with primitive properties and one property that is a
  union of a number literal set and a string literal set: under every purpose and prefix
  the one root schema is an array whose \<open>items\<close> is a \<open>$ref\<close> to the components entry of the
  object's declared name, the only entry; its \<open>required\<close> lists the properties that are not
  optional in declaration order, every declared property when none is optional; the
  fragment of the union property is a \<open>oneOf\<close> of the number-literal branch and the
  string-literal branch, each carrying the nullability of the property, \<open>nullable: true\<close> for
  a nullable one.
\<close>

theorem aliased_object_application:
  assumes "list_all is_primitive ps1" and "list_all is_primitive ps2"
    and "k \<notin> set (map property_name ps1)"
    and "props = ps1 @ Property k
           (Edge u (TUnion [TPrimitive ANumber f1 (Some numbers),
                            TPrimitive AString f2 (Some strings)])) r # ps2"
    and "app = buildSchemaApplication
           [Edge n (TArray (Edge m (TObject (Some name) org props tags)))] p refPrefix"
  shows "application_at [Key ''schemas''] app
         = Some (JArray [JObject [(''type'', JString ''array''),
                                  (''items'', reference refPrefix name),
                                  (''nullable'', JBool n)]])
       \<and> map_option keys (application_at [Key ''components'', Key ''schemas''] app)
         = Some [name]
       \<and> application_at [Key ''components'', Key ''schemas'', Key name, Key ''required''] app
         = Some (JArray (map JString (required_names props)))
       \<and> (list_all is_required props \<longrightarrow> required_names props = map property_name props)
       \<and> application_at
           [Key ''components'', Key ''schemas'', Key name, Key ''properties'', Key k] app
         = Some (JObject [(''oneOf'', JArray
              [JObject [(''type'', JString ''number''), (''enum'', JArray numbers),
                        (''nullable'', JBool u)],
               JObject [(''type'', JString ''string''), (''enum'', JArray strings),
                        (''nullable'', JBool u)]])])"
proof -
  let ?union = "Edge u (TUnion [TPrimitive ANumber f1 (Some numbers),
                               TPrimitive AString f2 (Some strings)])"
  let ?j = "JObject [(''oneOf'', JArray
              [JObject [(''type'', JString ''number''), (''enum'', JArray numbers),
                        (''nullable'', JBool u)],
               JObject [(''type'', JString ''string''), (''enum'', JArray strings),
                        (''nullable'', JBool u)]])]"
  let ?s1 = "\<lparr>registry = [(name, JObject [])], counters = []\<rparr>"
  let ?entries = "map primitive_entry ps1 @ (k, ?j) # map primitive_entry ps2"
  have union: "lower p refPrefix (Some name) ?s1 ?union = Inr (?j, ?s1)"
    by (simp add: lower_primitive_def type_name_def)
  have tail: "lower_props p refPrefix (Some name) ?s1 (Property k ?union r # ps2)
      = Inr ((k, ?j) # map primitive_entry ps2, ?s1)"
    by (simp only: lower_props.simps union lower_props_primitive [OF assms(2)]
        sum.case prod.case)
  have lowered: "lower_props p refPrefix (Some name) ?s1 props = Inr (?entries, ?s1)"
    unfolding assms(4)
    by (simp only: lower_props_append lower_props_primitive [OF assms(1)] tail
        sum.case prod.case)
  have root: "lower_list p refPrefix None \<lparr>registry = [], counters = []\<rparr>
      [Edge n (TArray (Edge m (TObject (Some name) org props tags)))]
      = Inr ([JObject [(''type'', JString ''array''),
                       (''items'', reference refPrefix name),
                       (''nullable'', JBool n)]],
             \<lparr>registry = [(name, object_fragment ?entries m (required_names props) tags)],
              counters = []\<rparr>)"
    by (simp add: assign_name_def lowered)
  have fresh: "k \<notin> set (map fst (map primitive_entry ps1))"
    using assms(3) by (simp add: primitive_entry_key)
  have look: "map_of ?entries k = Some ?j"
    using fresh by (rule map_of_append_fresh)
  have a: "application_at [Key ''schemas''] app
         = Some (JArray [JObject [(''type'', JString ''array''),
                                  (''items'', reference refPrefix name),
                                  (''nullable'', JBool n)]])"
    unfolding assms(5) buildSchemaApplication_def application_at_def root by simp
  have b: "map_option keys (application_at [Key ''components'', Key ''schemas''] app)
         = Some [name]"
    unfolding assms(5) buildSchemaApplication_def application_at_def root by simp
  have c: "application_at [Key ''components'', Key ''schemas'', Key name, Key ''required''] app
         = Some (JArray (map JString (required_names props)))"
    unfolding assms(5) buildSchemaApplication_def application_at_def root
    by (simp add: object_fragment_def)
  have d: "list_all is_required props \<longrightarrow> required_names props = map property_name props"
    by (simp add: required_names_all)
  have e: "application_at
           [Key ''components'', Key ''schemas'', Key name, Key ''properties'', Key k] app
         = Some ?j"
    unfolding assms(5) buildSchemaApplication_def application_at_def root
    by (simp add: object_fragment_def look del: map_of_append)
  from a b c d e show ?thesis
    by (simp only: simp_thms)
qed

text \<open>The aliased object of the test is such a type. The scenario gives its number literals
  as 1, 2; the expected application of the test lists them as 2, 1, and the compile of the
  type with the literals in that order is the expected application.\<close>

theorem object_alias_application:
  "list_all is_primitive
     [Property ''id'' (string_type True) True,
      Property ''email'' (string_type False) True,
      Property ''name'' (string_type False) True]
   \<and> list_all is_primitive
       [Property ''age'' (number_type True) True,
        Property ''dead'' (boolean_type True) True]
   \<and> list_all is_required (properties_of (ObjectAlias_IMember [JNumber 1, JNumber 2]))
   \<and> application_at [Key ''schemas'']
        (buildSchemaApplication [ObjectAlias [JNumber 1, JNumber 2]] Swagger
           (default_prefix Swagger))
       = Some (JArray [JObject [(''type'', JString ''array''),
                                (''items'', reference (default_prefix Swagger)
                                   ''ObjectAlias.IMember''),
                                (''nullable'', JBool False)]])
   \<and> map_option keys (application_at [Key ''components'', Key ''schemas'']
        (buildSchemaApplication [ObjectAlias [JNumber 1, JNumber 2]] Swagger
           (default_prefix Swagger)))
       = Some [''ObjectAlias.IMember'']
   \<and> application_at [Key ''components'', Key ''schemas'', Key ''ObjectAlias.IMember'',
                      Key ''required'']
        (buildSchemaApplication [ObjectAlias [JNumber 1, JNumber 2]] Swagger
           (default_prefix Swagger))
       = Some (JArray [JString ''id'', JString ''email'', JString ''name'', JString ''sex'',
                       JString ''age'', JString ''dead''])
   \<and> application_at [Key ''components'', Key ''schemas'', Key ''ObjectAlias.IMember'',
                      Key ''properties'', Key ''sex'']
        (buildSchemaApplication [ObjectAlias [JNumber 1, JNumber 2]] Swagger
           (default_prefix Swagger))
       = Some (JObject [(''oneOf'', JArray
            [JObject [(''type'', JString ''number''), (''enum'', JArray [JNumber 1, JNumber 2]),
                      (''nullable'', JBool True)],
             JObject [(''type'', JString ''string''),
                      (''enum'', JArray [JString ''male'', JString ''female'']),
                      (''nullable'', JBool True)]])])
   \<and> buildSchemaApplication [ObjectAlias [JNumber 2, JNumber 1]] Swagger
        (default_prefix Swagger)
       = Inr expected_object_alias"
proof -
  let ?ps1 = "[Property ''id'' (string_type True) True,
      Property ''email'' (string_type False) True,
      Property ''name'' (string_type False) True]"
  let ?ps2 = "[Property ''age'' (number_type True) True,
        Property ''dead'' (boolean_type True) True]"
  let ?props = "properties_of (ObjectAlias_IMember [JNumber 1, JNumber 2])"
  let ?app = "buildSchemaApplication [ObjectAlias [JNumber 1, JNumber 2]] Swagger
           (default_prefix Swagger)"
  have h1: "list_all is_primitive ?ps1"
    by (simp add: string_type_def)
  have h2: "list_all is_primitive ?ps2"
    by (simp add: number_type_def boolean_type_def)
  have h3: "''sex'' \<notin> set (map property_name ?ps1)"
    by simp
  have h4: "?props = ?ps1 @ Property ''sex''
           (Edge True (TUnion [TPrimitive ANumber None (Some [JNumber 1, JNumber 2]),
                               TPrimitive AString None
                                 (Some [JString ''male'', JString ''female''])])) True # ?ps2"
    by (simp add: ObjectAlias_IMember_def)
  have h5: "?app = buildSchemaApplication
           [Edge False (TArray (Edge False
              (TObject (Some ''ObjectAlias.IMember'') (Some UserNamed) ?props [])))]
           Swagger (default_prefix Swagger)"
    by (simp add: ObjectAlias_def ObjectAlias_IMember_def)
  have all: "list_all is_required ?props"
    by (simp add: ObjectAlias_IMember_def)
  have names: "required_names ?props
      = [''id'', ''email'', ''name'', ''sex'', ''age'', ''dead'']"
    by (simp add: ObjectAlias_IMember_def)
  note g = aliased_object_application [OF h1 h2 h3 h4 h5]
  have r: "application_at [Key ''components'', Key ''schemas'', Key ''ObjectAlias.IMember'',
                      Key ''required''] ?app
       = Some (JArray [JString ''id'', JString ''email'', JString ''name'', JString ''sex'',
                       JString ''age'', JString ''dead''])"
    using g by (simp add: names)
  have f: "buildSchemaApplication [ObjectAlias [JNumber 2, JNumber 1]] Swagger
        (default_prefix Swagger) = Inr expected_object_alias"
    by (simp add: scenario_defs ObjectAlias_def ObjectAlias_IMember_def
        expected_object_alias_def)
  from h1 h2 all g r f show ?thesis
    by (simp only: simp_thms)
qed

text \<open>
  C5: a fully anonymous top-level object with one nested anonymous object property (the
  object itself, or an array of it), its other properties and those of the nested object
  being primitives: under every purpose and prefix the root schema is a \<open>$ref\<close> to
  \<open>__type\<close>, the registry holds exactly \<open>__type\<close> and \<open>__type.o1\<close>, and the nested property
  of \<open>__type\<close> refers to \<open>__type.o1\<close> under the prefix. An anonymous object under a container
  \<open>c\<close> takes the name \<open>c.o<N>\<close> with \<open>N\<close> one more than the counter of \<open>c\<close>, which is then
  \<open>N\<close>.
\<close>

theorem anonymous_nested_object_names:
  assumes "list_all is_primitive ps1" and "list_all is_primitive ps2"
    and "list_all is_primitive qs" and "k \<notin> set (map property_name ps1)"
    and "nested = Edge m (TObject None org2 qs tags2)
         \<or> nested = Edge m1 (TArray (Edge m (TObject None org2 qs tags2)))"
  shows "application_at [Key ''schemas'']
           (buildSchemaApplication
              [Edge n (TObject None org (ps1 @ Property k nested r # ps2) tags)] p refPrefix)
         = Some (JArray [reference refPrefix ''__type''])
       \<and> map_option keys
           (application_at [Key ''components'', Key ''schemas'']
              (buildSchemaApplication
                 [Edge n (TObject None org (ps1 @ Property k nested r # ps2) tags)] p refPrefix))
         = Some [''__type'', ''__type.o1'']
       \<and> application_at
           [Key ''components'', Key ''schemas'', Key ''__type'', Key ''properties'', Key k]
           (buildSchemaApplication
              [Edge n (TObject None org (ps1 @ Property k nested r # ps2) tags)] p refPrefix)
         = Some (if nested = Edge m (TObject None org2 qs tags2)
                 then reference refPrefix ''__type.o1''
                 else JObject [(''type'', JString ''array''),
                               (''items'', reference refPrefix ''__type.o1''),
                               (''nullable'', JBool m1)])
       \<and> fst (assign_name None (Some c) st)
           = c @ ''.o'' @ decimal (Suc (case map_of (counters st) c of None \<Rightarrow> 0 | Some i \<Rightarrow> i))
       \<and> map_of (counters (snd (snd (assign_name None (Some c) st)))) c
           = Some (Suc (case map_of (counters st) c of None \<Rightarrow> 0 | Some i \<Rightarrow> i))"
proof -
  let ?s1 = "\<lparr>registry = [(''__type'', JObject [])], counters = []\<rparr>"
  let ?frag = "object_fragment (map primitive_entry qs) m (required_names qs) tags2"
  let ?s2 = "\<lparr>registry = [(''__type'', JObject []), (''__type.o1'', ?frag)],
              counters = [(''__type'', 1)]\<rparr>"
  let ?j = "if nested = Edge m (TObject None org2 qs tags2)
            then reference refPrefix ''__type.o1''
            else JObject [(''type'', JString ''array''),
                          (''items'', reference refPrefix ''__type.o1''),
                          (''nullable'', JBool m1)]"
  have inner: "lower p refPrefix (Some ''__type'') ?s1 (Edge m (TObject None org2 qs tags2))
      = Inr (reference refPrefix ''__type.o1'', ?s2)"
    using assms(3) by (rule lower_nested_anonymous)
  have nested: "lower p refPrefix (Some ''__type'') ?s1 nested = Inr (?j, ?s2)"
    using assms(5)
  proof
    assume a: "nested = Edge m (TObject None org2 qs tags2)"
    then have j: "?j = reference refPrefix ''__type.o1''"
      by simp
    show ?thesis
      unfolding j unfolding a by (rule inner)
  next
    assume a: "nested = Edge m1 (TArray (Edge m (TObject None org2 qs tags2)))"
    then have j: "?j = JObject [(''type'', JString ''array''),
                          (''items'', reference refPrefix ''__type.o1''),
                          (''nullable'', JBool m1)]"
      by simp
    show ?thesis
      unfolding j unfolding a by (simp only: lower_edge(2) inner sum.case prod.case)
  qed
  have props: "lower_props p refPrefix (Some ''__type'') ?s1 (ps1 @ Property k nested r # ps2)
      = Inr (map primitive_entry ps1 @ (k, ?j) # map primitive_entry ps2, ?s2)"
  proof -
    have tail: "lower_props p refPrefix (Some ''__type'') ?s1 (Property k nested r # ps2)
        = Inr ((k, ?j) # map primitive_entry ps2, ?s2)"
      by (simp only: lower_props.simps nested lower_props_primitive [OF assms(2)]
          sum.case prod.case)
    show ?thesis
      by (simp only: lower_props_append lower_props_primitive [OF assms(1)] tail
          sum.case prod.case)
  qed
  have root: "lower_list p refPrefix None \<lparr>registry = [], counters = []\<rparr>
      [Edge n (TObject None org (ps1 @ Property k nested r # ps2) tags)]
      = Inr ([reference refPrefix ''__type''],
             \<lparr>registry =
                [(''__type'',
                  object_fragment (map primitive_entry ps1 @ (k, ?j) # map primitive_entry ps2) n
                    (required_names (ps1 @ Property k nested r # ps2)) tags),
                 (''__type.o1'', ?frag)],
              counters = [(''__type'', 1)]\<rparr>)"
    by (simp add: assign_name_def props)
  have fresh: "k \<notin> set (map fst (map primitive_entry ps1))"
    using assms(4) by (simp add: primitive_entry_key)
  have look: "map_of (map primitive_entry ps1 @ (k, ?j) # map primitive_entry ps2) k = Some ?j"
    using fresh by (rule map_of_append_fresh)
  have a: "application_at [Key ''schemas'']
           (buildSchemaApplication
              [Edge n (TObject None org (ps1 @ Property k nested r # ps2) tags)] p refPrefix)
         = Some (JArray [reference refPrefix ''__type''])"
    unfolding buildSchemaApplication_def application_at_def root by simp
  have b: "map_option keys
           (application_at [Key ''components'', Key ''schemas'']
              (buildSchemaApplication
                 [Edge n (TObject None org (ps1 @ Property k nested r # ps2) tags)] p refPrefix))
         = Some [''__type'', ''__type.o1'']"
    unfolding buildSchemaApplication_def application_at_def root by simp
  have c: "application_at
           [Key ''components'', Key ''schemas'', Key ''__type'', Key ''properties'', Key k]
           (buildSchemaApplication
              [Edge n (TObject None org (ps1 @ Property k nested r # ps2) tags)] p refPrefix)
         = Some ?j"
    unfolding buildSchemaApplication_def application_at_def root
    by (simp add: object_fragment_def look del: map_of_append)
  have d: "fst (assign_name None (Some c) st)
       = c @ ''.o'' @ decimal (Suc (case map_of (counters st) c of None \<Rightarrow> 0 | Some i \<Rightarrow> i))
   \<and> map_of (counters (snd (snd (assign_name None (Some c) st)))) c
       = Some (Suc (case map_of (counters st) c of None \<Rightarrow> 0 | Some i \<Rightarrow> i))"
    by (simp add: assign_name_def Let_def update_conv')
  from a b c d show ?thesis
    by (simp only: simp_thms)
qed

text \<open>The primitive object of the test is such a type, and its compile with the defaults
  is the expected application of the test.\<close>

theorem object_primitive_application:
  "list_all is_primitive
     [Property ''id'' (string_type False) True,
      Property ''extension''
        (Edge False (TPrimitive AString None
           (Some [JString ''txt'', JString ''md'', JString ''html''])))
        True,
      Property ''title'' (string_type False) True,
      Property ''body'' (string_type False) True]
   \<and> list_all is_primitive
       [Property ''secret'' (boolean_type False) True,
        Property ''created_at'' (string_type False) True]
   \<and> list_all is_primitive (properties_of ObjectPrimitive_IFile)
   \<and> application_at [Key ''schemas'']
        (buildSchemaApplication [ObjectPrimitive] Swagger (default_prefix Swagger))
       = Some (JArray [reference (default_prefix Swagger) ''__type''])
   \<and> map_option keys (application_at [Key ''components'', Key ''schemas'']
        (buildSchemaApplication [ObjectPrimitive] Swagger (default_prefix Swagger)))
       = Some [''__type'', ''__type.o1'']
   \<and> application_at [Key ''components'', Key ''schemas'', Key ''__type'', Key ''properties'',
                      Key ''files'']
        (buildSchemaApplication [ObjectPrimitive] Swagger (default_prefix Swagger)) =
       Some (JObject [(''type'', JString ''array''),
                      (''items'', reference (default_prefix Swagger) ''__type.o1''),
                      (''nullable'', JBool False)])
   \<and> buildSchemaApplication [ObjectPrimitive] Swagger (default_prefix Swagger)
       = Inr expected_object_primitive"
proof -
  let ?ps1 = "[Property ''id'' (string_type False) True,
      Property ''extension''
        (Edge False (TPrimitive AString None
           (Some [JString ''txt'', JString ''md'', JString ''html''])))
        True,
      Property ''title'' (string_type False) True,
      Property ''body'' (string_type False) True]"
  let ?ps2 = "[Property ''secret'' (boolean_type False) True,
        Property ''created_at'' (string_type False) True]"
  let ?qs = "properties_of ObjectPrimitive_IFile"
  let ?nested = "Edge False (TArray (Edge False (TObject None (Some AnonymousLiteral) ?qs [])))"
  have h1: "list_all is_primitive ?ps1"
    by (simp add: string_type_def)
  have h2: "list_all is_primitive ?ps2"
    by (simp add: string_type_def boolean_type_def)
  have h3: "list_all is_primitive ?qs"
    by (simp add: ObjectPrimitive_IFile_def string_type_def)
  have h4: "''files'' \<notin> set (map property_name ?ps1)"
    by simp
  have h5: "?nested = Edge False (TObject None (Some AnonymousLiteral) ?qs [])
         \<or> ?nested = Edge False (TArray (Edge False (TObject None (Some AnonymousLiteral) ?qs [])))"
    by simp
  have root: "ObjectPrimitive
      = Edge False (TObject None (Some AnonymousLiteral) (?ps1 @ Property ''files'' ?nested True # ?ps2) [])"
    by (simp add: ObjectPrimitive_def ObjectPrimitive_IFile_def)
  have n: "?nested \<noteq> Edge False (TObject None (Some AnonymousLiteral) ?qs [])"
    by simp
  have g: "application_at [Key ''schemas'']
        (buildSchemaApplication [ObjectPrimitive] Swagger (default_prefix Swagger))
       = Some (JArray [reference (default_prefix Swagger) ''__type''])
   \<and> map_option keys (application_at [Key ''components'', Key ''schemas'']
        (buildSchemaApplication [ObjectPrimitive] Swagger (default_prefix Swagger)))
       = Some [''__type'', ''__type.o1'']
   \<and> application_at [Key ''components'', Key ''schemas'', Key ''__type'', Key ''properties'',
                      Key ''files'']
        (buildSchemaApplication [ObjectPrimitive] Swagger (default_prefix Swagger)) =
       Some (JObject [(''type'', JString ''array''),
                      (''items'', reference (default_prefix Swagger) ''__type.o1''),
                      (''nullable'', JBool False)])"
    using anonymous_nested_object_names [OF h1 h2 h3 h4 h5, of False "Some AnonymousLiteral"
            True "[]" Swagger "default_prefix Swagger"] n
    unfolding root by (simp only: if_False simp_thms)
  have f: "buildSchemaApplication [ObjectPrimitive] Swagger (default_prefix Swagger)
       = Inr expected_object_primitive"
    by (simp add: scenario_defs ObjectPrimitive_def ObjectPrimitive_IFile_def
        expected_object_primitive_def)
  from h1 h2 h3 g f show ?thesis
    by (simp only: simp_thms)
qed

text \<open>
  C6: an intersection of two object types with disjoint property names compiles to exactly
  what the one flat object with the intersection's declared name and the members'
  properties, in order, compiles to: the root schema is a \<open>$ref\<close> to that name, and the
  entry under that name is one object fragment whose properties are those of the members.
  Its \<open>required\<close> lists the properties that are not optional; when every property is
  declared non-optional, as in the scenario, \<open>required\<close> lists every property of the
  members. The members' own names and shapes leave nothing else in the output.
\<close>

theorem intersection_merged_flat:
  "set (map property_name ps) \<inter> set (map property_name qs) = {} \<Longrightarrow>
   buildSchemaApplication
       [Edge n (TIntersection (Some name) [TObject dA oA ps tA, TObject dB oB qs tB])]
       p refPrefix
     = buildSchemaApplication [Edge n (TObject (Some name) org (ps @ qs) (tA @ tB))] p refPrefix
   \<and> (\<forall>app. buildSchemaApplication
               [Edge n (TIntersection (Some name) [TObject dA oA ps tA, TObject dB oB qs tB])]
               p refPrefix = Inr app \<longrightarrow>
          json_at [Key ''schemas''] app = Some (JArray [reference refPrefix name])
          \<and> (\<exists>props. json_at [Key ''components'', Key ''schemas'', Key name] app
                        = Some (object_fragment props n (required_names (ps @ qs)) (tA @ tB))
                  \<and> map fst props = map property_name ps @ map property_name qs))
   \<and> (list_all is_required (ps @ qs) \<longrightarrow>
        required_names (ps @ qs) = map property_name ps @ map property_name qs)
   \<and> (\<forall>app. list_all is_required (ps @ qs) \<and>
          buildSchemaApplication
            [Edge n (TIntersection (Some name) [TObject dA oA ps tA, TObject dB oB qs tB])]
            p refPrefix = Inr app \<longrightarrow>
          json_at [Key ''components'', Key ''schemas'', Key name, Key ''required''] app
            = Some (JArray (map JString (map property_name ps @ map property_name qs))))"
proof -
  assume d: "set (map property_name ps) \<inter> set (map property_name qs) = {}"
  let ?i = "Edge n (TIntersection (Some name) [TObject dA oA ps tA, TObject dB oB qs tB])"
  let ?o = "Edge n (TObject (Some name) org (ps @ qs) (tA @ tB))"
  let ?s0 = "\<lparr>registry = [], counters = []\<rparr>"
  have eq: "lower p refPrefix None ?s0 ?i = lower p refPrefix None ?s0 ?o"
    using d by (rule lower_intersection_two)
  have b: "buildSchemaApplication [?i] p refPrefix = buildSchemaApplication [?o] p refPrefix"
    unfolding buildSchemaApplication_def lower_list.simps eq ..
  have out: "json_at [Key ''schemas''] app = Some (JArray [reference refPrefix name])
          \<and> (\<exists>props. json_at [Key ''components'', Key ''schemas'', Key name] app
                        = Some (object_fragment props n (required_names (ps @ qs)) (tA @ tB))
                  \<and> map fst props = map property_name ps @ map property_name qs)"
    if ok: "buildSchemaApplication [?i] p refPrefix = Inr app" for app
  proof -
    from ok have "buildSchemaApplication [?o] p refPrefix = Inr app"
      by (simp only: b)
    then obtain j st' where l: "lower p refPrefix None ?s0 ?o = Inr (j, st')"
      and app: "app = JObject [(''schemas'', JArray [j]),
                        (''components'', JObject [(''schemas'', JObject (registry st'))]),
                        (''purpose'', JString (purpose_name p)),
                        (''prefix'', JString refPrefix)]"
      unfolding buildSchemaApplication_def lower_list.simps
      by (auto split: sum.splits prod.splits)
    have n: "fst (assign_name (Some name) None ?s0) = name"
      by (simp add: assign_name_def)
    have "fst (assign_name (Some name) None ?s0) \<notin> set (map fst (registry ?s0))"
      by simp
    from lower_object_registered [OF l this] obtain pjs where
      "map_of (registry st') name
         = Some (object_fragment pjs n (required_names (ps @ qs)) (tA @ tB))"
      "map fst pjs = map property_name (ps @ qs)" "j = reference refPrefix name"
      unfolding n by blast
    then show ?thesis
      by (auto simp: app)
  qed
  have req: "list_all is_required (ps @ qs) \<longrightarrow>
        required_names (ps @ qs) = map property_name ps @ map property_name qs"
    using required_names_all [of "ps @ qs"] by simp
  have all: "json_at [Key ''components'', Key ''schemas'', Key name, Key ''required''] app
            = Some (JArray (map JString (map property_name ps @ map property_name qs)))"
    if r: "list_all is_required (ps @ qs)"
      and ok: "buildSchemaApplication [?i] p refPrefix = Inr app" for app
  proof -
    from out [OF ok] obtain props where
      f: "json_at [Key ''components'', Key ''schemas'', Key name] app
            = Some (object_fragment props n (required_names (ps @ qs)) (tA @ tB))"
      by blast
    have "json_at ([Key ''components'', Key ''schemas'', Key name] @ [Key ''required'']) app
        = json_at [Key ''required'']
            (object_fragment props n (required_names (ps @ qs)) (tA @ tB))"
      by (simp only: json_at_append f option.case)
    moreover have "required_names (ps @ qs) = map property_name ps @ map property_name qs"
      using req r by blast
    ultimately show ?thesis
      by (simp add: object_fragment_def)
  qed
  from b out req all show ?thesis
    by blast
qed

theorem intersection_merged_flat_witness:
  "set (map property_name
          [Property ''email'' (string_type False) True,
           Property ''name'' (string_type False) True])
     \<inter> set (map property_name [Property ''vulnerable'' (boolean_type False) True]) = {}
   \<and> buildSchemaApplication [ObjectIntersection] Swagger (default_prefix Swagger)
       = buildSchemaApplication
           [Edge False (TObject (Some ''ObjectIntersection'') (Some UserNamed)
              [Property ''email'' (string_type False) True,
               Property ''name'' (string_type False) True,
               Property ''vulnerable'' (boolean_type False) True] [])]
           Swagger (default_prefix Swagger)
   \<and> buildSchemaApplication [ObjectIntersection] Swagger (default_prefix Swagger)
       = Inr expected_object_intersection
   \<and> json_at [Key ''schemas''] expected_object_intersection
       = Some (JArray [reference (default_prefix Swagger) ''ObjectIntersection''])
   \<and> list_all is_required
        [Property ''email'' (string_type False) True,
         Property ''name'' (string_type False) True,
         Property ''vulnerable'' (boolean_type False) True]
   \<and> buildSchemaApplication [ObjectIntersection3] Swagger (default_prefix Swagger)
       = Inr expected_object_intersection
   \<and> json_at [Key ''components'', Key ''schemas'', Key ''ObjectIntersection'', Key ''required'']
        expected_object_intersection
       = Some (JArray [JString ''email'', JString ''name'', JString ''vulnerable''])
   \<and> map_option keys (json_at [Key ''components'', Key ''schemas''] expected_object_intersection)
       = Some [''ObjectIntersection'']"
proof -
  let ?ps = "[Property ''email'' (string_type False) True,
              Property ''name'' (string_type False) True]"
  let ?qs = "[Property ''vulnerable'' (boolean_type False) True]"
  have d: "set (map property_name ?ps) \<inter> set (map property_name ?qs) = {}"
    by simp
  have e: "buildSchemaApplication [ObjectIntersection] Swagger (default_prefix Swagger)
       = buildSchemaApplication
           [Edge False (TObject (Some ''ObjectIntersection'') (Some UserNamed) (?ps @ ?qs) ([] @ []))]
           Swagger (default_prefix Swagger)"
    using intersection_merged_flat [OF d, of False "''ObjectIntersection''"
        "Some ''ObjectIntersection.IEmail''" "Some UserNamed" "[]"
        "Some ''ObjectIntersection.IVulnerable''" "Some UserNamed" "[]" Swagger
        "default_prefix Swagger" "Some UserNamed"]
    unfolding ObjectIntersection_def by blast
  have f: "buildSchemaApplication [ObjectIntersection] Swagger (default_prefix Swagger)
       = Inr expected_object_intersection"
    by (simp add: scenario_defs ObjectIntersection_def expected_object_intersection_def)
  have g: "buildSchemaApplication [ObjectIntersection3] Swagger (default_prefix Swagger)
       = Inr expected_object_intersection"
    by (simp add: scenario_defs ObjectIntersection3_def expected_object_intersection_def)
  have h: "json_at [Key ''components'', Key ''schemas'', Key ''ObjectIntersection'', Key ''required'']
        expected_object_intersection
       = Some (JArray [JString ''email'', JString ''name'', JString ''vulnerable''])
   \<and> map_option keys (json_at [Key ''components'', Key ''schemas''] expected_object_intersection)
       = Some [''ObjectIntersection'']"
    by (simp add: expected_object_intersection_def)
  have i: "json_at [Key ''schemas''] expected_object_intersection
       = Some (JArray [reference (default_prefix Swagger) ''ObjectIntersection''])"
    using intersection_merged_flat [OF d, of False "''ObjectIntersection''"
        "Some ''ObjectIntersection.IEmail''" "Some UserNamed" "[]"
        "Some ''ObjectIntersection.IVulnerable''" "Some UserNamed" "[]" Swagger
        "default_prefix Swagger" "Some UserNamed"] f
    unfolding ObjectIntersection_def by blast
  have j: "list_all is_required (?ps @ ?qs)"
    by simp
  from d e f g h i j show ?thesis
    by simp
qed

text \<open>
  C7: an edge into the unknown kind lowers to the empty fragment, whatever its modifiers,
  and never fails; when an object with such a property, declared non-optional, is
  lowered, the fragment stored under the object's name has the empty fragment for that
  property and the property's name in \<open>required\<close>. For the closured object the compile is
  the expected application of the test, with \<open>open: {}\<close> and \<open>required: [id, open]\<close>.
\<close>

theorem unknown_property_open_fragment:
  "lower p refPrefix c st (Edge n (TPrimitive AUnknown f enum)) = Inr (JObject [], st)
   \<and> (lower p refPrefix c st (Edge m (TObject declared org props tags)) = Inr (j, st')
        \<and> fst (assign_name declared c st) \<notin> set (map fst (registry st))
        \<and> Property k (Edge n (TPrimitive AUnknown f enum)) True \<in> set props
      \<longrightarrow> (\<exists>pjs. map_of (registry st') (fst (assign_name declared c st))
                    = Some (object_fragment pjs m (required_names props) tags)
                 \<and> (k, JObject []) \<in> set pjs)
          \<and> k \<in> set (required_names props))
   \<and> buildSchemaApplication [ObjectClosure] Swagger (default_prefix Swagger)
       = Inr expected_object_closure
   \<and> json_at [Key ''components'', Key ''schemas'', Key ''ObjectClosure.IRecord'',
               Key ''properties'', Key ''open''] expected_object_closure = Some (JObject [])
   \<and> json_at [Key ''components'', Key ''schemas'', Key ''ObjectClosure.IRecord'',
               Key ''required''] expected_object_closure
       = Some (JArray [JString ''id'', JString ''open''])"
proof -
  have a: "lower p refPrefix c st (Edge n (TPrimitive AUnknown f enum)) = Inr (JObject [], st)"
    by (rule lower_unknown)
  have b: "(\<exists>pjs. map_of (registry st') (fst (assign_name declared c st))
                    = Some (object_fragment pjs m (required_names props) tags)
                 \<and> (k, JObject []) \<in> set pjs)
          \<and> k \<in> set (required_names props)"
    if l: "lower p refPrefix c st (Edge m (TObject declared org props tags)) = Inr (j, st')"
      and fresh: "fst (assign_name declared c st) \<notin> set (map fst (registry st))"
      and u: "Property k (Edge n (TPrimitive AUnknown f enum)) True \<in> set props"
  proof -
    from lower_object_registered [OF l fresh] u obtain pjs where
      "map_of (registry st') (fst (assign_name declared c st))
         = Some (object_fragment pjs m (required_names props) tags)"
      "(k, JObject []) \<in> set pjs"
      by blast
    moreover have "k \<in> set (required_names props)"
      using u by (rule required_names_member)
    ultimately show ?thesis by blast
  qed
  have s: "buildSchemaApplication [ObjectClosure] Swagger (default_prefix Swagger)
       = Inr expected_object_closure"
    by (simp add: scenario_defs ObjectClosure_def expected_object_closure_def)
  have t: "json_at [Key ''components'', Key ''schemas'', Key ''ObjectClosure.IRecord'',
               Key ''properties'', Key ''open''] expected_object_closure = Some (JObject [])
   \<and> json_at [Key ''components'', Key ''schemas'', Key ''ObjectClosure.IRecord'',
               Key ''required''] expected_object_closure
       = Some (JArray [JString ''id'', JString ''open''])"
    by (simp add: expected_object_closure_def)
  from a b s t show ?thesis
    by blast
qed

theorem unknown_property_open_fragment_witness:
  "lower Swagger (default_prefix Swagger) None \<lparr>registry = [], counters = []\<rparr> ObjectClosure
     = Inr (reference (default_prefix Swagger) ''ObjectClosure.IRecord'',
            \<lparr>registry = [(''ObjectClosure.IRecord'',
                 object_fragment
                   [(''id'', JObject [(''type'', JString ''string''), (''nullable'', JBool False)]),
                    (''open'', JObject [])]
                   False [''id'', ''open''] [])],
              counters = []\<rparr>)
   \<and> (\<exists>pjs. map_of [(''ObjectClosure.IRecord'',
                 object_fragment
                   [(''id'', JObject [(''type'', JString ''string''), (''nullable'', JBool False)]),
                    (''open'', JObject [])]
                   False [''id'', ''open''] [])] ''ObjectClosure.IRecord''
               = Some (object_fragment pjs False [''id'', ''open''] [])
            \<and> (''open'', JObject []) \<in> set pjs)
   \<and> ''open'' \<in> set (required_names
        [Property ''id'' (string_type False) True, Property ''open'' unknown_type True])"
proof -
  let ?props = "[Property ''id'' (string_type False) True, Property ''open'' unknown_type True]"
  let ?frag = "object_fragment
                   [(''id'', JObject [(''type'', JString ''string''), (''nullable'', JBool False)]),
                    (''open'', JObject [])]
                   False [''id'', ''open''] []"
  let ?st' = "\<lparr>registry = [(''ObjectClosure.IRecord'', ?frag)], counters = []\<rparr>"
  have l: "lower Swagger (default_prefix Swagger) None \<lparr>registry = [], counters = []\<rparr>
             (Edge False (TObject (Some ''ObjectClosure.IRecord'') (Some UserNamed) ?props []))
           = Inr (reference (default_prefix Swagger) ''ObjectClosure.IRecord'', ?st')"
    by (simp add: scenario_defs)
  have n: "fst (assign_name (Some ''ObjectClosure.IRecord'') None \<lparr>registry = [], counters = []\<rparr>)
             = ''ObjectClosure.IRecord''"
    by (simp add: assign_name_def)
  have fresh: "fst (assign_name (Some ''ObjectClosure.IRecord'') None
                      \<lparr>registry = [], counters = []\<rparr>)
                 \<notin> set (map fst (registry \<lparr>registry = [], counters = []\<rparr>))"
    by simp
  have u: "Property ''open'' (Edge False (TPrimitive AUnknown None None)) True \<in> set ?props"
    by (simp add: unknown_type_def)
  have r: "required_names ?props = [''id'', ''open'']"
    by (simp add: scenario_defs)
  from unknown_property_open_fragment
         [of Swagger "default_prefix Swagger" None "\<lparr>registry = [], counters = []\<rparr>"
             False None None False "Some ''ObjectClosure.IRecord''" "Some UserNamed" ?props "[]"
             "reference (default_prefix Swagger) ''ObjectClosure.IRecord''" ?st' "''open''"]
       l fresh u
  have "(\<exists>pjs. map_of (registry ?st') ''ObjectClosure.IRecord''
                    = Some (object_fragment pjs False (required_names ?props) [])
                 \<and> (''open'', JObject []) \<in> set pjs)
          \<and> ''open'' \<in> set (required_names ?props)"
    unfolding n by blast
  then show ?thesis
    using l by (simp add: r ObjectClosure_def)
qed

end
